theory Spec2Isabelle
  imports Main "HOL-Library.Sublist"
begin

section \<open>Data model\<close>

text \<open>
  Timestamps (Python \<open>datetime\<close>) are integers counting microseconds; one hour is
  \<open>3600000000\<close> of them. Values of JSON columns and of \<open>model_dump()\<close> are
  \<open>json\<close> terms; a dictionary keeps its keys in insertion order.
\<close>

type_synonym datetime = int

datatype json =
    JNull
  | JBool bool
  | JInt int
  | JStr string
  | JList "json list"
  | JDict "(string \<times> json) list"

datatype exn =
    ValueError string
  | IndexError
  | RemoteError string

subsection \<open>Typed records of the remote source (\<open>models/*.py\<close>)\<close>

record PackageInfo =
  info_package_id :: string
  info_last_modified :: datetime
  info_package_link :: string

record CollectionPackages =
  cp_count :: int
  cp_message :: "string option"
  cp_next_page :: "string option"
  cp_previous_page :: "string option"
  cp_packages :: "PackageInfo list"

record PackageDownload =
  pd_txt_link :: "string option"
  pd_xml_link :: "string option"
  pd_pdf_link :: "string option"
  pd_mods_link :: "string option"
  pd_premis_link :: "string option"
  pd_zip_link :: "string option"

text \<open>\<open>PackageRelated\<close> and \<open>ReferenceContent\<close> allow extra fields; they are kept
  in \<open>*_extra\<close>, in the order received.\<close>

record PackageRelated =
  rel_bill_status_link :: "string option"
  rel_extra :: "(string \<times> json) list"

record ReferenceContent =
  rc_title :: "string option"
  rc_label :: "string option"
  rc_sections :: "string list option"
  rc_pages :: "string list option"
  rc_congress :: "string option"
  rc_number :: "string option"
  rc_extra :: "(string \<times> json) list"

record PackageReference =
  ref_collection_code :: string
  ref_collection_name :: string
  ref_contents :: "ReferenceContent list"

text \<open>Of \<open>PackageSummary\<close> and \<open>GranuleSummary\<close> the fields that ingestion reads.\<close>

record PackageSummary =
  sum_title :: string
  sum_collection_code :: string
  sum_collection_name :: string
  sum_category :: "string option"
  sum_date_issued :: "string option"
  sum_package_id :: string
  sum_download :: "PackageDownload option"
  sum_related :: "PackageRelated option"
  sum_last_modified :: "datetime option"
  sum_branch :: "string option"
  sum_pages :: "string option"
  sum_bill_type :: "string option"
  sum_congress :: "string option"
  sum_session :: "string option"
  sum_bill_number :: "string option"
  sum_bill_version :: "string option"
  sum_publisher :: "string option"
  sum_references :: "PackageReference list option"

record GranuleDownload =
  gd_txt_link :: "string option"
  gd_xml_link :: "string option"
  gd_pdf_link :: "string option"
  gd_mods_link :: "string option"
  gd_premis_link :: "string option"
  gd_zip_link :: "string option"

record GranuleSummary =
  gs_title :: string
  gs_granule_id :: string
  gs_granule_class :: "string option"
  gs_collection_code :: "string option"
  gs_date_issued :: "string option"
  gs_download :: "GranuleDownload option"
  gs_last_modified :: "datetime option"
  gs_branch :: "string option"
  gs_pages :: "string option"
  gs_congress :: "string option"
  gs_session :: "string option"

record GranuleInfo =
  gi_granule_id :: string
  gi_title :: string
  gi_granule_link :: string
  gi_granule_class :: "string option"

record GranuleList =
  gl_count :: int
  gl_message :: "string option"
  gl_next_page :: "string option"
  gl_previous_page :: "string option"
  gl_offset_mark :: "string option"
  gl_granules :: "GranuleInfo list"

subsection \<open>\<open>model_dump()\<close>\<close>

definition opt_str :: "string option \<Rightarrow> json" where
  "opt_str v = (case v of None \<Rightarrow> JNull | Some s \<Rightarrow> JStr s)"

definition opt_strs :: "string list option \<Rightarrow> json" where
  "opt_strs v = (case v of None \<Rightarrow> JNull | Some ss \<Rightarrow> JList (map JStr ss))"

definition dump_package_download :: "PackageDownload \<Rightarrow> json" where
  "dump_package_download d = JDict
     [(''txt_link'', opt_str (pd_txt_link d)), (''xml_link'', opt_str (pd_xml_link d)),
      (''pdf_link'', opt_str (pd_pdf_link d)), (''mods_link'', opt_str (pd_mods_link d)),
      (''premis_link'', opt_str (pd_premis_link d)), (''zip_link'', opt_str (pd_zip_link d))]"

definition dump_granule_download :: "GranuleDownload \<Rightarrow> json" where
  "dump_granule_download d = JDict
     [(''txt_link'', opt_str (gd_txt_link d)), (''xml_link'', opt_str (gd_xml_link d)),
      (''pdf_link'', opt_str (gd_pdf_link d)), (''mods_link'', opt_str (gd_mods_link d)),
      (''premis_link'', opt_str (gd_premis_link d)), (''zip_link'', opt_str (gd_zip_link d))]"

definition dump_package_related :: "PackageRelated \<Rightarrow> json" where
  "dump_package_related r =
     JDict ((''bill_status_link'', opt_str (rel_bill_status_link r)) # rel_extra r)"

definition dump_reference_content :: "ReferenceContent \<Rightarrow> json" where
  "dump_reference_content c = JDict
     ([(''title'', opt_str (rc_title c)), (''label'', opt_str (rc_label c)),
       (''sections'', opt_strs (rc_sections c)), (''pages'', opt_strs (rc_pages c)),
       (''congress'', opt_str (rc_congress c)), (''number'', opt_str (rc_number c))]
      @ rc_extra c)"

definition dump_package_reference :: "PackageReference \<Rightarrow> json" where
  "dump_package_reference r = JDict
     [(''collection_code'', JStr (ref_collection_code r)),
      (''collection_name'', JStr (ref_collection_name r)),
      (''contents'', JList (map dump_reference_content (ref_contents r)))]"

subsection \<open>Rows of the local store (\<open>db/models.py\<close>)\<close>

record Collection =
  coll_id :: nat
  coll_collection_code :: string
  coll_collection_name :: string
  coll_package_count :: int
  coll_granule_count :: "int option"
  coll_created_at :: datetime
  coll_updated_at :: datetime

record Package =
  pkg_id :: nat
  pkg_package_id :: string
  pkg_title :: "string option"
  pkg_collection_id :: nat
  pkg_collection_code :: string
  pkg_collection_name :: "string option"
  pkg_category :: "string option"
  pkg_date_issued :: "string option"
  pkg_last_modified :: "datetime option"
  pkg_branch :: "string option"
  pkg_congress :: "string option"
  pkg_session :: "string option"
  pkg_download_links :: "json option"
  pkg_related_links :: "json option"
  pkg_references :: "json option"
  pkg_metadata :: "json option"
  pkg_created_at :: datetime
  pkg_updated_at :: datetime

record Granule =
  gr_id :: nat
  gr_granule_id :: string
  gr_title :: "string option"
  gr_package_id :: nat
  gr_package_identifier :: string
  gr_granule_class :: "string option"
  gr_collection_code :: "string option"
  gr_date_issued :: "string option"
  gr_last_modified :: "datetime option"
  gr_download_links :: "json option"
  gr_metadata :: "json option"
  gr_created_at :: datetime
  gr_updated_at :: datetime

record SearchCache =
  sc_id :: nat
  sc_query_hash :: string
  sc_query :: string
  sc_results :: "(string \<times> json) list"
  sc_result_count :: json
  sc_created_at :: datetime
  sc_expires_at :: datetime

record store =
  collections :: "Collection list"
  packages :: "Package list"
  granules :: "Granule list"
  search_cache :: "SearchCache list"

subsection \<open>The world an ingestion service runs in\<close>

text \<open>
  \<open>db\<close> is what the SQLAlchemy session sees (autoflush makes a pending row visible to the
  next \<open>select\<close>), \<open>durable\<close> what the last \<open>commit()\<close> wrote. \<open>requests\<close> lists
  the calls made to the remote API, \<open>stdout\<close> the lines printed, \<open>now\<close> is what
  \<open>datetime.utcnow()\<close> reads.
\<close>

record request =
  endpoint :: string
  params :: "(string \<times> json) list"

record world =
  db :: store
  durable :: store
  requests :: "request list"
  stdout :: "string list"
  now :: datetime

text \<open>The client and the remote API behind it: for each typed method, what a GET
  request is answered with once \<open>raise_for_status()\<close> and the pydantic constructor have
  run, an exception or a validated record.\<close>

record env =
  api_key :: string
  api_collection_packages :: "request \<Rightarrow> exn + CollectionPackages"
  api_package_summary :: "request \<Rightarrow> exn + PackageSummary"
  api_package_granules :: "request \<Rightarrow> exn + GranuleList"
  api_granule_summary :: "request \<Rightarrow> exn + GranuleSummary"

definition commit :: "world \<Rightarrow> world" where
  "commit w = w\<lparr>durable := db w\<rparr>"

definition print :: "string \<Rightarrow> world \<Rightarrow> world" where
  "print line w = w\<lparr>stdout := stdout w @ [line]\<rparr>"

definition str_exn :: "exn \<Rightarrow> string" where
  "str_exn e = (case e of ValueError m \<Rightarrow> m | IndexError \<Rightarrow> ''list index out of range''
                | RemoteError m \<Rightarrow> m)"

text \<open>\<open>session.scalar(select(T).where(key == k))\<close> gives the first matching row, and an
  attribute assignment on it changes that row. A new row takes the next integer key.\<close>

fun update_first :: "('a \<Rightarrow> bool) \<Rightarrow> ('a \<Rightarrow> 'a) \<Rightarrow> 'a list \<Rightarrow> 'a list" where
  "update_first P f [] = []"
| "update_first P f (x # xs) = (if P x then f x # xs else x # update_first P f xs)"

definition next_id :: "nat list \<Rightarrow> nat" where
  "next_id ids = Suc (fold max ids 0)"

section \<open>The reconciler (\<open>services/ingestion.py\<close>)\<close>

definition save_package_basic ::
    "PackageInfo \<Rightarrow> nat \<Rightarrow> string \<Rightarrow> world \<Rightarrow> Package \<times> world" where
  "save_package_basic pkg_info collection_id collection_code w =
     (case find (\<lambda>r. pkg_package_id r = info_package_id pkg_info) (packages (db w)) of
        Some db_package \<Rightarrow>
          let db_package' = db_package
                \<lparr>pkg_last_modified := Some (info_last_modified pkg_info),
                 pkg_updated_at := now w\<rparr>
          in (db_package',
              w\<lparr>db := (db w)\<lparr>packages :=
                   update_first (\<lambda>r. pkg_package_id r = info_package_id pkg_info)
                     (\<lambda>_. db_package') (packages (db w))\<rparr>\<rparr>)
      | None \<Rightarrow>
          let db_package =
                \<lparr>pkg_id = next_id (map pkg_id (packages (db w))),
                 pkg_package_id = info_package_id pkg_info,
                 pkg_title = None,
                 pkg_collection_id = collection_id,
                 pkg_collection_code = collection_code,
                 pkg_collection_name = None,
                 pkg_category = None,
                 pkg_date_issued = None,
                 pkg_last_modified = Some (info_last_modified pkg_info),
                 pkg_branch = None,
                 pkg_congress = None,
                 pkg_session = None,
                 pkg_download_links = None,
                 pkg_related_links = None,
                 pkg_references = None,
                 pkg_metadata = None,
                 pkg_created_at = now w,
                 pkg_updated_at = now w\<rparr>
          in (db_package, w\<lparr>db := (db w)\<lparr>packages := packages (db w) @ [db_package]\<rparr>\<rparr>))"

text \<open>The \<open>package_data\<close> dictionary of \<open>_save_package_summary\<close>, as the row it
  describes; \<open>package_id\<close> is the one key the update loop skips.\<close>

definition package_references :: "PackageSummary \<Rightarrow> json option" where
  "package_references s =
     (case sum_references s of
        None \<Rightarrow> None
      | Some rs \<Rightarrow> if rs = [] then None else Some (JList (map dump_package_reference rs)))"

definition package_metadata :: "PackageSummary \<Rightarrow> json" where
  "package_metadata s = JDict
     [(''bill_type'', opt_str (sum_bill_type s)),
      (''bill_number'', opt_str (sum_bill_number s)),
      (''bill_version'', opt_str (sum_bill_version s)),
      (''publisher'', opt_str (sum_publisher s)),
      (''pages'', opt_str (sum_pages s))]"

definition set_package_data :: "PackageSummary \<Rightarrow> nat \<Rightarrow> Package \<Rightarrow> Package" where
  "set_package_data s collection_id r = r
     \<lparr>pkg_title := Some (sum_title s),
      pkg_collection_id := collection_id,
      pkg_collection_code := sum_collection_code s,
      pkg_collection_name := Some (sum_collection_name s),
      pkg_category := sum_category s,
      pkg_date_issued := sum_date_issued s,
      pkg_last_modified := sum_last_modified s,
      pkg_branch := sum_branch s,
      pkg_congress := sum_congress s,
      pkg_session := sum_session s,
      pkg_download_links := map_option dump_package_download (sum_download s),
      pkg_related_links := map_option dump_package_related (sum_related s),
      pkg_references := package_references s,
      pkg_metadata := Some (package_metadata s)\<rparr>"

definition save_package_summary :: "PackageSummary \<Rightarrow> nat \<Rightarrow> world \<Rightarrow> Package \<times> world" where
  "save_package_summary pkg_summary collection_id w =
     (case find (\<lambda>r. pkg_package_id r = sum_package_id pkg_summary) (packages (db w)) of
        Some db_package \<Rightarrow>
          let db_package' =
                (set_package_data pkg_summary collection_id db_package)
                  \<lparr>pkg_updated_at := now w\<rparr>
          in (db_package',
              w\<lparr>db := (db w)\<lparr>packages :=
                   update_first (\<lambda>r. pkg_package_id r = sum_package_id pkg_summary)
                     (\<lambda>_. db_package') (packages (db w))\<rparr>\<rparr>)
      | None \<Rightarrow>
          let db_package =
                \<lparr>pkg_id = next_id (map pkg_id (packages (db w))),
                 pkg_package_id = sum_package_id pkg_summary,
                 pkg_title = Some (sum_title pkg_summary),
                 pkg_collection_id = collection_id,
                 pkg_collection_code = sum_collection_code pkg_summary,
                 pkg_collection_name = Some (sum_collection_name pkg_summary),
                 pkg_category = sum_category pkg_summary,
                 pkg_date_issued = sum_date_issued pkg_summary,
                 pkg_last_modified = sum_last_modified pkg_summary,
                 pkg_branch = sum_branch pkg_summary,
                 pkg_congress = sum_congress pkg_summary,
                 pkg_session = sum_session pkg_summary,
                 pkg_download_links = map_option dump_package_download (sum_download pkg_summary),
                 pkg_related_links = map_option dump_package_related (sum_related pkg_summary),
                 pkg_references = package_references pkg_summary,
                 pkg_metadata = Some (package_metadata pkg_summary),
                 pkg_created_at = now w,
                 pkg_updated_at = now w\<rparr>
          in (db_package, w\<lparr>db := (db w)\<lparr>packages := packages (db w) @ [db_package]\<rparr>\<rparr>))"

definition save_granule_basic ::
    "GranuleInfo \<Rightarrow> nat \<Rightarrow> string \<Rightarrow> world \<Rightarrow> Granule \<times> world" where
  "save_granule_basic granule_info package_id package_identifier w =
     (case find (\<lambda>r. gr_granule_id r = gi_granule_id granule_info) (granules (db w)) of
        Some db_granule \<Rightarrow>
          let db_granule' = db_granule
                \<lparr>gr_title := Some (gi_title granule_info), gr_updated_at := now w\<rparr>
          in (db_granule',
              w\<lparr>db := (db w)\<lparr>granules :=
                   update_first (\<lambda>r. gr_granule_id r = gi_granule_id granule_info)
                     (\<lambda>_. db_granule') (granules (db w))\<rparr>\<rparr>)
      | None \<Rightarrow>
          let db_granule =
                \<lparr>gr_id = next_id (map gr_id (granules (db w))),
                 gr_granule_id = gi_granule_id granule_info,
                 gr_title = Some (gi_title granule_info),
                 gr_package_id = package_id,
                 gr_package_identifier = package_identifier,
                 gr_granule_class = gi_granule_class granule_info,
                 gr_collection_code = None,
                 gr_date_issued = None,
                 gr_last_modified = None,
                 gr_download_links = None,
                 gr_metadata = None,
                 gr_created_at = now w,
                 gr_updated_at = now w\<rparr>
          in (db_granule, w\<lparr>db := (db w)\<lparr>granules := granules (db w) @ [db_granule]\<rparr>\<rparr>))"

definition granule_metadata :: "GranuleSummary \<Rightarrow> json" where
  "granule_metadata s = JDict
     [(''branch'', opt_str (gs_branch s)),
      (''pages'', opt_str (gs_pages s)),
      (''congress'', opt_str (gs_congress s)),
      (''session'', opt_str (gs_session s))]"

definition set_granule_data :: "GranuleSummary \<Rightarrow> nat \<Rightarrow> string \<Rightarrow> Granule \<Rightarrow> Granule" where
  "set_granule_data s package_id package_identifier r = r
     \<lparr>gr_title := Some (gs_title s),
      gr_package_id := package_id,
      gr_package_identifier := package_identifier,
      gr_granule_class := gs_granule_class s,
      gr_collection_code := gs_collection_code s,
      gr_date_issued := gs_date_issued s,
      gr_last_modified := gs_last_modified s,
      gr_download_links := map_option dump_granule_download (gs_download s),
      gr_metadata := Some (granule_metadata s)\<rparr>"

definition save_granule_summary ::
    "GranuleSummary \<Rightarrow> nat \<Rightarrow> string \<Rightarrow> world \<Rightarrow> Granule \<times> world" where
  "save_granule_summary granule_summary package_id package_identifier w =
     (case find (\<lambda>r. gr_granule_id r = gs_granule_id granule_summary) (granules (db w)) of
        Some db_granule \<Rightarrow>
          let db_granule' =
                (set_granule_data granule_summary package_id package_identifier db_granule)
                  \<lparr>gr_updated_at := now w\<rparr>
          in (db_granule',
              w\<lparr>db := (db w)\<lparr>granules :=
                   update_first (\<lambda>r. gr_granule_id r = gs_granule_id granule_summary)
                     (\<lambda>_. db_granule') (granules (db w))\<rparr>\<rparr>)
      | None \<Rightarrow>
          let db_granule =
                \<lparr>gr_id = next_id (map gr_id (granules (db w))),
                 gr_granule_id = gs_granule_id granule_summary,
                 gr_title = Some (gs_title granule_summary),
                 gr_package_id = package_id,
                 gr_package_identifier = package_identifier,
                 gr_granule_class = gs_granule_class granule_summary,
                 gr_collection_code = gs_collection_code granule_summary,
                 gr_date_issued = gs_date_issued granule_summary,
                 gr_last_modified = gs_last_modified granule_summary,
                 gr_download_links = map_option dump_granule_download (gs_download granule_summary),
                 gr_metadata = Some (granule_metadata granule_summary),
                 gr_created_at = now w,
                 gr_updated_at = now w\<rparr>
          in (db_granule, w\<lparr>db := (db w)\<lparr>granules := granules (db w) @ [db_granule]\<rparr>\<rparr>))"

section \<open>Python strings\<close>

text \<open>\<open>sub in s\<close>, \<open>s.split(sep)\<close> (which raises on an empty separator), \<open>xs[i]\<close>
  for \<open>i \<ge> 0\<close>, and the truth value of an \<open>Optional[str]\<close>.\<close>

fun py_in :: "string \<Rightarrow> string \<Rightarrow> bool" where
  "py_in sub [] = (sub = [])"
| "py_in sub (c # cs) = (prefix sub (c # cs) \<or> py_in sub cs)"

fun split_from :: "string \<Rightarrow> string \<Rightarrow> string \<Rightarrow> string list" where
  "split_from sep cur [] = [cur]"
| "split_from sep cur (c # cs) =
     (if sep \<noteq> [] \<and> prefix sep (c # cs)
      then cur # split_from sep [] (drop (length sep - 1) cs)
      else split_from sep (cur @ [c]) cs)"

definition py_split :: "string \<Rightarrow> string \<Rightarrow> exn + string list" where
  "py_split s sep =
     (if sep = [] then Inl (ValueError ''empty separator'') else Inr (split_from sep [] s))"

definition py_index :: "'a list \<Rightarrow> nat \<Rightarrow> exn + 'a" where
  "py_index xs i = (if i < length xs then Inr (xs ! i) else Inl IndexError)"

definition truthy :: "string option \<Rightarrow> bool" where
  "truthy v = (case v of None \<Rightarrow> False | Some s \<Rightarrow> s \<noteq> [])"

definition and_then :: "exn + 'a \<Rightarrow> ('a \<Rightarrow> exn + 'b) \<Rightarrow> exn + 'b" where
  "and_then r f = (case r of Inl e \<Rightarrow> Inl e | Inr v \<Rightarrow> f v)"

text \<open>The expression \<open>next_page.split("offsetMark=")[1].split("&")[0]\<close> of
  \<open>client.py\<close> line 149 and \<open>ingestion.py\<close> line 240.\<close>

definition extract_offset_mark :: "string \<Rightarrow> exn + string" where
  "extract_offset_mark next_page =
     and_then (py_split next_page ''offsetMark='') (\<lambda>parts.
     and_then (py_index parts 1) (\<lambda>rest.
     and_then (py_split rest ''&'') (\<lambda>fields.
     py_index fields 0)))"

section \<open>The client (\<open>client.py\<close>)\<close>

definition get :: "env \<Rightarrow> string \<Rightarrow> (string \<times> json) list \<Rightarrow> world \<Rightarrow> request \<times> world" where
  "get c ep ps w =
     (let req = \<lparr>endpoint = ep, params = ps @ [(''api_key'', JStr (api_key c))]\<rparr>
      in (req, w\<lparr>requests := requests w @ [req]\<rparr>))"

definition get_collection_packages ::
    "env \<Rightarrow> string \<Rightarrow> string \<Rightarrow> string option \<Rightarrow> string \<Rightarrow> int \<Rightarrow> world
     \<Rightarrow> (exn + CollectionPackages) \<times> world" where
  "get_collection_packages c collection_code last_modified_start_date last_modified_end_date
       offset_mark page_size w =
     (let ep = ''/collections/'' @ collection_code @ ''/'' @ last_modified_start_date;
          ep = (case last_modified_end_date of
                  None \<Rightarrow> ep
                | Some e \<Rightarrow> if e \<noteq> [] then ep @ ''/'' @ e else ep);
          (req, w') = get c ep [(''offsetMark'', JStr offset_mark), (''pageSize'', JInt page_size)] w
      in (api_collection_packages c req, w'))"

definition get_package_summary ::
    "env \<Rightarrow> string \<Rightarrow> world \<Rightarrow> (exn + PackageSummary) \<times> world" where
  "get_package_summary c package_id w =
     (let (req, w') = get c (''/packages/'' @ package_id @ ''/summary'') [] w
      in (api_package_summary c req, w'))"

definition get_package_granules ::
    "env \<Rightarrow> string \<Rightarrow> string \<Rightarrow> int \<Rightarrow> world \<Rightarrow> (exn + GranuleList) \<times> world" where
  "get_package_granules c package_id offset_mark page_size w =
     (let (req, w') = get c (''/packages/'' @ package_id @ ''/granules'')
                        [(''offsetMark'', JStr offset_mark), (''pageSize'', JInt page_size)] w
      in (api_package_granules c req, w'))"

definition get_granule_summary ::
    "env \<Rightarrow> string \<Rightarrow> string \<Rightarrow> world \<Rightarrow> (exn + GranuleSummary) \<times> world" where
  "get_granule_summary c package_id granule_id w =
     (let (req, w') = get c (''/packages/'' @ package_id @ ''/granules/'' @ granule_id
                               @ ''/summary'') [] w
      in (api_granule_summary c req, w'))"

subsection \<open>The cursor walker\<close>

text \<open>
  \<open>iter_collection_packages\<close> is a generator. Between two calls of \<open>next()\<close> it is
  either not started, suspended at its \<open>yield\<close> holding the page it yielded, or
  finished. One call of \<open>next()\<close> runs it to the next \<open>yield\<close>, to its end
  (\<open>StopIteration\<close>) or to an exception.
\<close>

datatype gen = NotStarted | Suspended CollectionPackages | Finished

datatype 'a step = Yield 'a | StopIteration | Raise exn

definition fetch_page ::
    "env \<Rightarrow> string \<Rightarrow> string \<Rightarrow> string option \<Rightarrow> int \<Rightarrow> string \<Rightarrow> world
     \<Rightarrow> CollectionPackages step \<times> gen \<times> world" where
  "fetch_page c collection_code start_date end_date page_size offset_mark w =
     (case get_collection_packages c collection_code start_date end_date offset_mark page_size w of
        (Inl e, w') \<Rightarrow> (Raise e, Finished, w')
      | (Inr result, w') \<Rightarrow> (Yield result, Suspended result, w'))"

definition iter_collection_packages_next ::
    "env \<Rightarrow> string \<Rightarrow> string \<Rightarrow> string option \<Rightarrow> int \<Rightarrow> gen \<Rightarrow> world
     \<Rightarrow> CollectionPackages step \<times> gen \<times> world" where
  "iter_collection_packages_next c collection_code start_date end_date page_size g w =
     (case g of
        NotStarted \<Rightarrow> fetch_page c collection_code start_date end_date page_size ''*'' w
      | Suspended result \<Rightarrow>
          if \<not> truthy (cp_next_page result) then (StopIteration, Finished, w)
          else if py_in ''offsetMark='' (the (cp_next_page result)) then
            (case extract_offset_mark (the (cp_next_page result)) of
               Inl e \<Rightarrow> (Raise e, Finished, w)
             | Inr offset_mark \<Rightarrow>
                 fetch_page c collection_code start_date end_date page_size offset_mark w)
          else (StopIteration, Finished, w)
      | Finished \<Rightarrow> (StopIteration, Finished, w))"

text \<open>All of the generator, as \<open>list(client.iter_collection_packages(...))\<close> would
  run it: the pages yielded and how the iteration ended, \<open>None\<close> when \<open>fuel\<close> calls
  of \<open>next()\<close> did not end it.\<close>

fun iter_collection_packages ::
    "nat \<Rightarrow> env \<Rightarrow> string \<Rightarrow> string \<Rightarrow> string option \<Rightarrow> int \<Rightarrow> gen \<Rightarrow> world
     \<Rightarrow> CollectionPackages list \<times> (exn option \<times> world) option" where
  "iter_collection_packages 0 c collection_code start_date end_date page_size g w = ([], None)"
| "iter_collection_packages (Suc fuel) c collection_code start_date end_date page_size g w =
     (case iter_collection_packages_next c collection_code start_date end_date page_size g w of
        (StopIteration, g', w') \<Rightarrow> ([], Some (None, w'))
      | (Raise e, g', w') \<Rightarrow> ([], Some (Some e, w'))
      | (Yield page, g', w') \<Rightarrow>
          (case iter_collection_packages fuel c collection_code start_date end_date page_size g' w'
           of (pages, r) \<Rightarrow> (page # pages, r)))"

section \<open>The ingestion orchestrator (\<open>services/ingestion.py\<close>)\<close>

text \<open>A run either returns its count or raises; both leave a world behind. A loop that
  has not ended after \<open>fuel\<close> page fetches gives \<open>None\<close>.\<close>

datatype outcome = Returned nat world | Raised exn world

text \<open>\<open>max_pages and page_num >= max_pages\<close>: \<open>None\<close> and \<open>0\<close> are both false.\<close>

definition limit_reached :: "int option \<Rightarrow> nat \<Rightarrow> bool" where
  "limit_reached max_pages page_num =
     (case max_pages of None \<Rightarrow> False | Some m \<Rightarrow> m \<noteq> 0 \<and> int page_num \<ge> m)"

text \<open>The body of \<open>for pkg in page.packages\<close>, lines 102 to 111.\<close>

definition ingest_package ::
    "env \<Rightarrow> bool \<Rightarrow> nat \<Rightarrow> string \<Rightarrow> PackageInfo \<Rightarrow> world \<Rightarrow> world" where
  "ingest_package c fetch_summaries collection_id collection_code pkg w =
     (if fetch_summaries then
        (case get_package_summary c (info_package_id pkg) w of
           (Inr pkg_summary, w') \<Rightarrow> snd (save_package_summary pkg_summary collection_id w')
         | (Inl e, w') \<Rightarrow>
             snd (save_package_basic pkg collection_id collection_code
                   (print (''Error fetching summary for '' @ info_package_id pkg @ '': ''
                           @ str_exn e) w')))
      else snd (save_package_basic pkg collection_id collection_code w))"

definition ingest_page ::
    "env \<Rightarrow> bool \<Rightarrow> nat \<Rightarrow> string \<Rightarrow> PackageInfo list \<Rightarrow> nat \<times> world \<Rightarrow> nat \<times> world" where
  "ingest_page c fetch_summaries collection_id collection_code pkgs =
     fold (\<lambda>pkg (count, w).
             (count + 1, ingest_package c fetch_summaries collection_id collection_code pkg w))
       pkgs"

fun packages_loop ::
    "nat \<Rightarrow> env \<Rightarrow> string \<Rightarrow> string \<Rightarrow> string option \<Rightarrow> int option \<Rightarrow> bool \<Rightarrow> nat
     \<Rightarrow> gen \<Rightarrow> nat \<Rightarrow> nat \<Rightarrow> world \<Rightarrow> outcome option" where
  "packages_loop 0 c collection_code start_date end_date max_pages fetch_summaries
       collection_id g count page_num w = None"
| "packages_loop (Suc fuel) c collection_code start_date end_date max_pages fetch_summaries
       collection_id g count page_num w =
     (case iter_collection_packages_next c collection_code start_date end_date 100 g w of
        (StopIteration, g', w') \<Rightarrow> Some (Returned count (commit w'))
      | (Raise e, g', w') \<Rightarrow> Some (Raised e w')
      | (Yield page, g', w') \<Rightarrow>
          (case ingest_page c fetch_summaries collection_id collection_code (cp_packages page)
                  (count, w') of
             (count', w'') \<Rightarrow>
               if limit_reached max_pages (page_num + 1)
               then Some (Returned count' (commit w''))
               else packages_loop fuel c collection_code start_date end_date max_pages
                      fetch_summaries collection_id g' count' (page_num + 1) (commit w'')))"

definition ingest_collection_packages ::
    "nat \<Rightarrow> env \<Rightarrow> string \<Rightarrow> string \<Rightarrow> string option \<Rightarrow> int option \<Rightarrow> bool \<Rightarrow> world
     \<Rightarrow> outcome option" where
  "ingest_collection_packages fuel c collection_code start_date end_date max_pages
       fetch_summaries w =
     (case find (\<lambda>r. coll_collection_code r = collection_code) (collections (db w)) of
        None \<Rightarrow>
          Some (Raised (ValueError (''Collection '' @ collection_code
                                     @ '' not found in database'')) w)
      | Some db_collection \<Rightarrow>
          packages_loop fuel c collection_code start_date end_date max_pages fetch_summaries
            (coll_id db_collection) NotStarted 0 0 w)"

text \<open>The body of \<open>for granule_info in granules_data.granules\<close>, lines 219 to 227.\<close>

definition ingest_granule ::
    "env \<Rightarrow> nat \<Rightarrow> string \<Rightarrow> GranuleInfo \<Rightarrow> world \<Rightarrow> world" where
  "ingest_granule c db_package_id package_id granule_info w =
     (case get_granule_summary c package_id (gi_granule_id granule_info) w of
        (Inr granule_summary, w') \<Rightarrow>
          snd (save_granule_summary granule_summary db_package_id package_id w')
      | (Inl e, w') \<Rightarrow>
          snd (save_granule_basic granule_info db_package_id package_id
                (print (''Error fetching granule '' @ gi_granule_id granule_info @ '': ''
                        @ str_exn e) w')))"

definition ingest_granule_page ::
    "env \<Rightarrow> nat \<Rightarrow> string \<Rightarrow> GranuleInfo list \<Rightarrow> nat \<times> world \<Rightarrow> nat \<times> world" where
  "ingest_granule_page c db_package_id package_id infos =
     fold (\<lambda>granule_info (count, w).
             (count + 1, ingest_granule c db_package_id package_id granule_info w))
       infos"

fun granules_loop ::
    "nat \<Rightarrow> env \<Rightarrow> string \<Rightarrow> int option \<Rightarrow> nat \<Rightarrow> string \<Rightarrow> nat \<Rightarrow> nat \<Rightarrow> world
     \<Rightarrow> outcome option" where
  "granules_loop 0 c package_id max_pages db_package_id offset_mark count page_num w = None"
| "granules_loop (Suc fuel) c package_id max_pages db_package_id offset_mark count page_num w =
     (case get_package_granules c package_id offset_mark 100 w of
        (Inl e, w') \<Rightarrow> Some (Raised e w')
      | (Inr granules_data, w') \<Rightarrow>
          (case ingest_granule_page c db_package_id package_id (gl_granules granules_data)
                  (count, w') of
             (count', w'') \<Rightarrow>
               if limit_reached max_pages (page_num + 1)
               then Some (Returned count' (commit w''))
               else if \<not> truthy (gl_next_page granules_data)
               then Some (Returned count' (commit w''))
               else if py_in ''offsetMark='' (the (gl_next_page granules_data)) then
                 (case extract_offset_mark (the (gl_next_page granules_data)) of
                    Inl e \<Rightarrow> Some (Raised e w'')
                  | Inr offset_mark' \<Rightarrow>
                      granules_loop fuel c package_id max_pages db_package_id offset_mark'
                        count' (page_num + 1) (commit w''))
               else Some (Returned count' (commit w''))))"

definition ingest_package_granules ::
    "nat \<Rightarrow> env \<Rightarrow> string \<Rightarrow> int option \<Rightarrow> world \<Rightarrow> outcome option" where
  "ingest_package_granules fuel c package_id max_pages w =
     (case find (\<lambda>r. pkg_package_id r = package_id) (packages (db w)) of
        None \<Rightarrow>
          Some (Raised (ValueError (''Package '' @ package_id @ '' not found in database'')) w)
      | Some db_package \<Rightarrow>
          granules_loop fuel c package_id max_pages (pkg_id db_package) ''*'' 0 0 w)"

subsection \<open>The search cache\<close>

text \<open>\<open>results.get("count", 0)\<close>.\<close>

definition dict_get :: "(string \<times> json) list \<Rightarrow> string \<Rightarrow> json \<Rightarrow> json" where
  "dict_get d k fallback = (case map_of d k of None \<Rightarrow> fallback | Some v \<Rightarrow> v)"

definition hour :: int where
  "hour = 3600000000"

text \<open>\<open>sha256_hex\<close> stands for \<open>hashlib.sha256(query.encode()).hexdigest()\<close>, a function
  of the standard library taken as a parameter.\<close>

definition cache_search_results ::
    "(string \<Rightarrow> string) \<Rightarrow> string \<Rightarrow> (string \<times> json) list \<Rightarrow> int \<Rightarrow> world \<Rightarrow> world" where
  "cache_search_results sha256_hex query results ttl_hours w =
     (let query_hash = sha256_hex query;
          expires_at = now w + ttl_hours * hour
      in commit
        (case find (\<lambda>r. sc_query_hash r = query_hash) (search_cache (db w)) of
           Some cache_entry \<Rightarrow>
             w\<lparr>db := (db w)\<lparr>search_cache :=
                  update_first (\<lambda>r. sc_query_hash r = query_hash)
                    (\<lambda>_. cache_entry
                        \<lparr>sc_results := results,
                         sc_result_count := dict_get results ''count'' (JInt 0),
                         sc_created_at := now w,
                         sc_expires_at := expires_at\<rparr>)
                    (search_cache (db w))\<rparr>\<rparr>
         | None \<Rightarrow>
             w\<lparr>db := (db w)\<lparr>search_cache := search_cache (db w) @
                  [\<lparr>sc_id = next_id (map sc_id (search_cache (db w))),
                    sc_query_hash = query_hash,
                    sc_query = query,
                    sc_results = results,
                    sc_result_count = dict_get results ''count'' (JInt 0),
                    sc_created_at = now w,
                    sc_expires_at = expires_at\<rparr>]\<rparr>\<rparr>))"

text \<open>Modelled from the spec: the repository has no reader of the search cache, so the
  expiry test is the data model's sentence "an entry is logically absent once the current
  time exceeds its expiry timestamp".\<close>

definition cache_entry_expired :: "SearchCache \<Rightarrow> datetime \<Rightarrow> bool" where
  "cache_entry_expired entry t = (t > sc_expires_at entry)"

section \<open>Vocabulary of the properties\<close>

text \<open>A page continues when it carries a next-page reference that is not empty and has
  the text \<open>offsetMark=\<close> in it.\<close>

definition has_continuation :: "string option \<Rightarrow> bool" where
  "has_continuation next_page = (truthy next_page \<and> py_in ''offsetMark='' (the next_page))"

text \<open>Two worlds agree on what the reconciler reads and writes.\<close>

definition same_store :: "world \<Rightarrow> world \<Rightarrow> bool" where
  "same_store w w' = (db w = db w' \<and> now w = now w')"

text \<open>The requests the detail methods and the granule listing send.\<close>

definition summary_request :: "env \<Rightarrow> string \<Rightarrow> request" where
  "summary_request c package_id =
     \<lparr>endpoint = ''/packages/'' @ package_id @ ''/summary'',
      params = [(''api_key'', JStr (api_key c))]\<rparr>"

definition granule_summary_request :: "env \<Rightarrow> string \<Rightarrow> string \<Rightarrow> request" where
  "granule_summary_request c package_id granule_id =
     \<lparr>endpoint = ''/packages/'' @ package_id @ ''/granules/'' @ granule_id @ ''/summary'',
      params = [(''api_key'', JStr (api_key c))]\<rparr>"

definition granules_request :: "env \<Rightarrow> string \<Rightarrow> string \<Rightarrow> int \<Rightarrow> request" where
  "granules_request c package_id offset_mark page_size =
     \<lparr>endpoint = ''/packages/'' @ package_id @ ''/granules'',
      params = [(''offsetMark'', JStr offset_mark), (''pageSize'', JInt page_size),
                (''api_key'', JStr (api_key c))]\<rparr>"

text \<open>The pagination of \<open>ingest_package_granules\<close> (lines 215 to 242) taken alone, with
  no page limit and no reconciling: the granule pages it fetches from \<open>offset_mark\<close> on
  and how it ends, \<open>None\<close> when \<open>fuel\<close> fetches did not end it.\<close>

fun granule_pages ::
    "nat \<Rightarrow> env \<Rightarrow> string \<Rightarrow> string \<Rightarrow> GranuleList list \<times> exn option option" where
  "granule_pages 0 c package_id offset_mark = ([], None)"
| "granule_pages (Suc fuel) c package_id offset_mark =
     (case api_package_granules c (granules_request c package_id offset_mark 100) of
        Inl e \<Rightarrow> ([], Some (Some e))
      | Inr granules_data \<Rightarrow>
          if has_continuation (gl_next_page granules_data) then
            (case extract_offset_mark (the (gl_next_page granules_data)) of
               Inl e \<Rightarrow> ([granules_data], Some (Some e))
             | Inr offset_mark' \<Rightarrow>
                 (case granule_pages fuel c package_id offset_mark' of
                    (pages, r) \<Rightarrow> (granules_data # pages, r)))
          else ([granules_data], Some None))"

text \<open>How many more pages a loop may take once \<open>page_num\<close> pages are done (\<open>None\<close>: no
  bound), and the pages it takes of those the pagination offers.\<close>

definition page_budget :: "int option \<Rightarrow> nat \<Rightarrow> nat option" where
  "page_budget max_pages page_num =
     (case max_pages of
        None \<Rightarrow> None
      | Some m \<Rightarrow> if m = 0 then None else Some (max 1 (nat m - page_num)))"

definition take_pages :: "int option \<Rightarrow> nat \<Rightarrow> 'a list \<Rightarrow> 'a list" where
  "take_pages max_pages page_num pages =
     (case page_budget max_pages page_num of None \<Rightarrow> pages | Some k \<Rightarrow> take k pages)"

text \<open>How a loop ends, given how its pagination ends (\<open>r\<close>) after offering \<open>n\<close> pages:
  the page limit ends it normally when the budget is met, otherwise it ends as the
  pagination does.\<close>

definition loop_end :: "int option \<Rightarrow> nat \<Rightarrow> nat \<Rightarrow> exn option option \<Rightarrow> exn option option" where
  "loop_end max_pages page_num n r =
     (case page_budget max_pages page_num of
        None \<Rightarrow> r
      | Some k \<Rightarrow> if k \<le> n then Some None else r)"


text \<open>For the replay of a page: the identifier a listed package is reconciled under, and
  the fields its reconciliation writes into a row that exists (all but the update time,
  which every write sets to the clock). \<open>replay_row\<close> applies to one row, in order, the
  writes of the records of a page that are reconciled under the identifier \<open>k\<close>.\<close>

definition target :: "env \<Rightarrow> bool \<Rightarrow> PackageInfo \<Rightarrow> string" where
  "target c fs pkg =
     (if fs then
        (case api_package_summary c (summary_request c (info_package_id pkg)) of
           Inr s \<Rightarrow> sum_package_id s
         | Inl e \<Rightarrow> info_package_id pkg)
      else info_package_id pkg)"

definition written :: "env \<Rightarrow> bool \<Rightarrow> nat \<Rightarrow> PackageInfo \<Rightarrow> Package \<Rightarrow> Package" where
  "written c fs cid pkg r =
     (if fs then
        (case api_package_summary c (summary_request c (info_package_id pkg)) of
           Inr s \<Rightarrow> set_package_data s cid r
         | Inl e \<Rightarrow> r\<lparr>pkg_last_modified := Some (info_last_modified pkg)\<rparr>)
      else r\<lparr>pkg_last_modified := Some (info_last_modified pkg)\<rparr>)"

definition replay_row ::
    "env \<Rightarrow> bool \<Rightarrow> nat \<Rightarrow> datetime \<Rightarrow> string \<Rightarrow> PackageInfo list \<Rightarrow> Package \<Rightarrow> Package" where
  "replay_row c fs cid t k pkgs =
     fold (\<lambda>pkg r. if target c fs pkg = k
                    then (written c fs cid pkg r)\<lparr>pkg_updated_at := t\<rparr> else r) pkgs"

definition blank_updated :: "Package \<Rightarrow> Package" where
  "blank_updated r = r\<lparr>pkg_updated_at := 0\<rparr>"

text \<open>The cache entry a call of \<open>cache_search_results\<close> leaves under the query's hash.\<close>

definition cache_entry_after ::
    "(string \<Rightarrow> string) \<Rightarrow> string \<Rightarrow> (string \<times> json) list \<Rightarrow> int \<Rightarrow> world \<Rightarrow> SearchCache" where
  "cache_entry_after H q res ttl w =
     (case find (\<lambda>r. sc_query_hash r = H q) (search_cache (db w)) of
        Some e \<Rightarrow> e\<lparr>sc_results := res, sc_result_count := dict_get res ''count'' (JInt 0),
                    sc_created_at := now w, sc_expires_at := now w + ttl * hour\<rparr>
      | None \<Rightarrow> \<lparr>sc_id = next_id (map sc_id (search_cache (db w))), sc_query_hash = H q,
                  sc_query = q, sc_results = res,
                  sc_result_count = dict_get res ''count'' (JInt 0),
                  sc_created_at = now w, sc_expires_at = now w + ttl * hour\<rparr>)"

section \<open>A small catalogue\<close>

text \<open>One collection with three listing pages of packages; the detail endpoint fails
  for package \<open>P2\<close>. Package \<open>P1\<close> has two granules on one page.\<close>

definition empty_store :: store where
  "empty_store = \<lparr>collections = [], packages = [], granules = [], search_cache = []\<rparr>"

definition bills :: Collection where
  "bills = \<lparr>coll_id = 1, coll_collection_code = ''BILLS'',
            coll_collection_name = ''Congressional Bills'', coll_package_count = 5,
            coll_granule_count = None, coll_created_at = 0, coll_updated_at = 0\<rparr>"

definition world0 :: world where
  "world0 = \<lparr>db = empty_store, durable = empty_store, requests = [], stdout = [], now = 1000\<rparr>"

definition world1 :: world where
  "world1 = \<lparr>db = empty_store\<lparr>collections := [bills]\<rparr>,
             durable = empty_store\<lparr>collections := [bills]\<rparr>,
             requests = [], stdout = [], now = 1000\<rparr>"

definition mk_info :: "string \<Rightarrow> datetime \<Rightarrow> PackageInfo" where
  "mk_info pid t = \<lparr>info_package_id = pid, info_last_modified = t, info_package_link = ''l''\<rparr>"

definition mk_page :: "string option \<Rightarrow> PackageInfo list \<Rightarrow> CollectionPackages" where
  "mk_page nxt pkgs = \<lparr>cp_count = 5, cp_message = None, cp_next_page = nxt,
                     cp_previous_page = None, cp_packages = pkgs\<rparr>"

definition page1 :: CollectionPackages where
  "page1 = mk_page (Some ''https://h/c?offsetMark=AAA&pageSize=100'')
             [mk_info ''P1'' 10, mk_info ''P2'' 20, mk_info ''P3'' 30]"

definition page2 :: CollectionPackages where
  "page2 = mk_page (Some ''https://h/c?offsetMark=BBB&pageSize=100'') [mk_info ''P4'' 40]"

definition page3 :: CollectionPackages where
  "page3 = mk_page (Some ''https://h/c?pageSize=100'') [mk_info ''P5'' 50]"

definition mk_download :: "string option \<Rightarrow> string option \<Rightarrow> PackageDownload" where
  "mk_download pdf xml = \<lparr>pd_txt_link = None, pd_xml_link = xml, pd_pdf_link = pdf,
                         pd_mods_link = None, pd_premis_link = None, pd_zip_link = None\<rparr>"

definition mk_summary :: "string \<Rightarrow> string \<Rightarrow> PackageDownload option \<Rightarrow> PackageSummary" where
  "mk_summary pid title dl =
     \<lparr>sum_title = title, sum_collection_code = ''BILLS'',
      sum_collection_name = ''Congressional Bills'', sum_category = Some ''Bills'',
      sum_date_issued = Some ''2024-01-01'', sum_package_id = pid, sum_download = dl,
      sum_related = None, sum_last_modified = Some 77, sum_branch = Some ''legislative'',
      sum_pages = Some ''3'', sum_bill_type = Some ''hr'', sum_congress = Some ''118'',
      sum_session = Some ''1'', sum_bill_number = Some ''1'', sum_bill_version = Some ''ih'',
      sum_publisher = Some ''GPO'', sum_references = None\<rparr>"

definition mk_granule_info :: "string \<Rightarrow> string \<Rightarrow> GranuleInfo" where
  "mk_granule_info gid title = \<lparr>gi_granule_id = gid, gi_title = title, gi_granule_link = ''l'',
                              gi_granule_class = None\<rparr>"

definition mk_granule_summary :: "string \<Rightarrow> string \<Rightarrow> GranuleSummary" where
  "mk_granule_summary gid title =
     \<lparr>gs_title = title, gs_granule_id = gid, gs_granule_class = Some ''HOUSE'',
      gs_collection_code = Some ''BILLS'', gs_date_issued = None, gs_download = None,
      gs_last_modified = Some 88, gs_branch = None, gs_pages = None, gs_congress = None,
      gs_session = None\<rparr>"

definition granule_page :: GranuleList where
  "granule_page = \<lparr>gl_count = 2, gl_message = None, gl_next_page = None,
                    gl_previous_page = None, gl_offset_mark = None,
                    gl_granules = [mk_granule_info ''G1'' ''One'', mk_granule_info ''G2'' ''Two'']\<rparr>"

definition catalogue :: env where
  "catalogue =
     \<lparr>api_key = ''K'',
      api_collection_packages = (\<lambda>req.
        (case map_of (params req) ''offsetMark'' of
           Some (JStr m) \<Rightarrow>
             if m = ''*'' then Inr page1
             else if m = ''AAA'' then Inr page2
             else if m = ''BBB'' then Inr page3
             else Inl (RemoteError ''404'')
         | _ \<Rightarrow> Inl (RemoteError ''400''))),
      api_package_summary = (\<lambda>req.
        if endpoint req = ''/packages/P2/summary'' then Inl (RemoteError ''500'')
        else if endpoint req = ''/packages/P1/summary''
          then Inr (mk_summary ''P1'' ''First'' (Some (mk_download (Some ''A'') None)))
        else if endpoint req = ''/packages/P3/summary'' then Inr (mk_summary ''P3'' ''Third'' None)
        else if endpoint req = ''/packages/P4/summary'' then Inr (mk_summary ''P4'' ''Fourth'' None)
        else if endpoint req = ''/packages/P5/summary'' then Inr (mk_summary ''P5'' ''Fifth'' None)
        else Inl (RemoteError ''404'')),
      api_package_granules = (\<lambda>req.
        if endpoint req = ''/packages/P1/granules'' then Inr granule_page
        else Inl (RemoteError ''404'')),
      api_granule_summary = (\<lambda>req.
        if endpoint req = ''/packages/P1/granules/G1/summary''
          then Inr (mk_granule_summary ''G1'' ''One, in full'')
        else Inl (RemoteError ''500''))\<rparr>"

text \<open>A store that already holds package \<open>P1\<close> in full detail, with a download blob
  \<open>{pdf: A}\<close>, and its granule \<open>G1\<close>.\<close>

definition old_package :: Package where
  "old_package =
     \<lparr>pkg_id = 1, pkg_package_id = ''P1'', pkg_title = Some ''Old'', pkg_collection_id = 1,
      pkg_collection_code = ''BILLS'', pkg_collection_name = Some ''Congressional Bills'',
      pkg_category = Some ''Bills'', pkg_date_issued = None, pkg_last_modified = Some 5,
      pkg_branch = None, pkg_congress = None, pkg_session = None,
      pkg_download_links = Some (JDict [(''pdf'', JStr ''A'')]), pkg_related_links = None,
      pkg_references = None, pkg_metadata = Some (JDict [(''publisher'', JStr ''GPO'')]),
      pkg_created_at = 0, pkg_updated_at = 0\<rparr>"

definition old_granule :: Granule where
  "old_granule =
     \<lparr>gr_id = 1, gr_granule_id = ''G1'', gr_title = Some ''Old'', gr_package_id = 1,
      gr_package_identifier = ''P1'', gr_granule_class = None, gr_collection_code = None,
      gr_date_issued = None, gr_last_modified = Some 5,
      gr_download_links = Some (JDict [(''pdf'', JStr ''A'')]), gr_metadata = None,
      gr_created_at = 0, gr_updated_at = 0\<rparr>"

definition old_store :: store where
  "old_store = \<lparr>collections = [bills], packages = [old_package], granules = [old_granule],
                 search_cache = []\<rparr>"

definition world2 :: world where
  "world2 = \<lparr>db = old_store, durable = old_store, requests = [], stdout = [], now = 1000\<rparr>"

text \<open>A stand-in for the hash function in examples.\<close>

definition toy_hash :: "string \<Rightarrow> string" where
  "toy_hash q = ''#'' @ q"

section \<open>Properties\<close>

subsection \<open>The reconciler on a row that exists\<close>

lemma find_update_first:
  "find P xs = Some x \<Longrightarrow> P y \<Longrightarrow> find P (update_first P (\<lambda>_. y) xs) = Some y"
  by (induction xs) (auto split: if_splits)

lemma map_update_first:
  "find P xs = Some x \<Longrightarrow> g y = g x \<Longrightarrow> map g (update_first P (\<lambda>_. y) xs) = map g xs"
  by (induction xs) (auto split: if_splits)

lemma filter_update_first:
  "find P xs = Some x \<Longrightarrow> P y \<Longrightarrow>
   filter (\<lambda>r. \<not> P r) (update_first P (\<lambda>_. y) xs) = filter (\<lambda>r. \<not> P r) xs"
  by (induction xs) (auto split: if_splits)

lemma find_Some_holds: "find P xs = Some x \<Longrightarrow> P x"
  by (induction xs) (auto split: if_splits)

lemma save_package_basic_existing:
  assumes "find (\<lambda>r. pkg_package_id r = info_package_id i) (packages (db w)) = Some row"
  shows "case save_package_basic i cid cc w of (row', w') \<Rightarrow>
      row' = row\<lparr>pkg_last_modified := Some (info_last_modified i), pkg_updated_at := now w\<rparr>
    \<and> find (\<lambda>r. pkg_package_id r = info_package_id i) (packages (db w')) = Some row'
    \<and> map (\<lambda>r. r\<lparr>pkg_last_modified := None, pkg_updated_at := 0\<rparr>) (packages (db w'))
        = map (\<lambda>r. r\<lparr>pkg_last_modified := None, pkg_updated_at := 0\<rparr>) (packages (db w))
    \<and> filter (\<lambda>r. pkg_package_id r \<noteq> info_package_id i) (packages (db w'))
        = filter (\<lambda>r. pkg_package_id r \<noteq> info_package_id i) (packages (db w))
    \<and> w'\<lparr>db := (db w')\<lparr>packages := []\<rparr>\<rparr> = w\<lparr>db := (db w)\<lparr>packages := []\<rparr>\<rparr>"
  using assms find_Some_holds[OF assms]
  by (simp add: save_package_basic_def Let_def find_update_first map_update_first
        filter_update_first)

lemma save_granule_basic_existing:
  assumes "find (\<lambda>r. gr_granule_id r = gi_granule_id i) (granules (db w)) = Some row"
  shows "case save_granule_basic i pid pident w of (row', w') \<Rightarrow>
      row' = row\<lparr>gr_title := Some (gi_title i), gr_updated_at := now w\<rparr>
    \<and> find (\<lambda>r. gr_granule_id r = gi_granule_id i) (granules (db w')) = Some row'
    \<and> map (\<lambda>r. r\<lparr>gr_title := None, gr_updated_at := 0\<rparr>) (granules (db w'))
        = map (\<lambda>r. r\<lparr>gr_title := None, gr_updated_at := 0\<rparr>) (granules (db w))
    \<and> filter (\<lambda>r. gr_granule_id r \<noteq> gi_granule_id i) (granules (db w'))
        = filter (\<lambda>r. gr_granule_id r \<noteq> gi_granule_id i) (granules (db w))
    \<and> w'\<lparr>db := (db w')\<lparr>granules := []\<rparr>\<rparr> = w\<lparr>db := (db w)\<lparr>granules := []\<rparr>\<rparr>"
  using assms find_Some_holds[OF assms]
  by (simp add: save_granule_basic_def Let_def find_update_first map_update_first
        filter_update_first)

text \<open>
  Claim C1, as stated, fails for granules: the basic merge of a granule that is already
  stored overwrites its title with the listing's title and leaves its last-modified
  timestamp as it was (a \<open>GranuleInfo\<close> carries a title and no timestamp). Granule
  \<open>G1\<close> is stored with title \<open>Old\<close> and last-modified \<open>5\<close>; after the basic
  merge of a listing entry titled \<open>New\<close> the title is \<open>New\<close> and last-modified is
  still \<open>5\<close>.
\<close>

theorem granule_basic_merge_counterexample:
  "find (\<lambda>r. gr_granule_id r = ''G1'') (granules (db world2)) = Some old_granule
   \<and> gr_title old_granule = Some ''Old'' \<and> gr_last_modified old_granule = Some 5
   \<and> map gr_title
        (granules (db (snd (save_granule_basic (mk_granule_info ''G1'' ''New'') 1 ''P1'' world2))))
       = [Some ''New'']
   \<and> map gr_last_modified
        (granules (db (snd (save_granule_basic (mk_granule_info ''G1'' ''New'') 1 ''P1'' world2))))
       = [Some 5]"
  by (simp add: world2_def old_store_def mk_granule_info_def old_granule_def
        save_granule_basic_def Let_def)

text \<open>
  Claim C1, amended. The basic merge onto an existing row refreshes two fields and nothing
  else. For a Package they are the last-modified timestamp and the update time; for a
  Granule they are the title and the update time. The row returned is the stored row with
  exactly these two fields replaced, it is the row now found under the identifier, every
  row of the table is what it was once the two fields are blanked, rows under other
  identifiers are untouched, and nothing outside the table changes.
\<close>

theorem basic_merge_on_existing_row:
  "(find (\<lambda>r. pkg_package_id r = info_package_id i) (packages (db w)) = Some row \<longrightarrow>
     (case save_package_basic i cid cc w of (row', w') \<Rightarrow>
        row' = row\<lparr>pkg_last_modified := Some (info_last_modified i), pkg_updated_at := now w\<rparr>
      \<and> find (\<lambda>r. pkg_package_id r = info_package_id i) (packages (db w')) = Some row'
      \<and> map (\<lambda>r. r\<lparr>pkg_last_modified := None, pkg_updated_at := 0\<rparr>) (packages (db w'))
          = map (\<lambda>r. r\<lparr>pkg_last_modified := None, pkg_updated_at := 0\<rparr>) (packages (db w))
      \<and> filter (\<lambda>r. pkg_package_id r \<noteq> info_package_id i) (packages (db w'))
          = filter (\<lambda>r. pkg_package_id r \<noteq> info_package_id i) (packages (db w))
      \<and> w'\<lparr>db := (db w')\<lparr>packages := []\<rparr>\<rparr> = w\<lparr>db := (db w)\<lparr>packages := []\<rparr>\<rparr>))
   \<and> (find (\<lambda>r. gr_granule_id r = gi_granule_id j) (granules (db w)) = Some grow \<longrightarrow>
     (case save_granule_basic j pid pident w of (row', w') \<Rightarrow>
        row' = grow\<lparr>gr_title := Some (gi_title j), gr_updated_at := now w\<rparr>
      \<and> find (\<lambda>r. gr_granule_id r = gi_granule_id j) (granules (db w')) = Some row'
      \<and> map (\<lambda>r. r\<lparr>gr_title := None, gr_updated_at := 0\<rparr>) (granules (db w'))
          = map (\<lambda>r. r\<lparr>gr_title := None, gr_updated_at := 0\<rparr>) (granules (db w))
      \<and> filter (\<lambda>r. gr_granule_id r \<noteq> gi_granule_id j) (granules (db w'))
          = filter (\<lambda>r. gr_granule_id r \<noteq> gi_granule_id j) (granules (db w))
      \<and> w'\<lparr>db := (db w')\<lparr>granules := []\<rparr>\<rparr> = w\<lparr>db := (db w)\<lparr>granules := []\<rparr>\<rparr>))"
  by (intro conjI impI save_package_basic_existing save_granule_basic_existing)

theorem basic_merge_witness:
  "packages (db (snd (save_package_basic (mk_info ''P1'' 10) 1 ''BILLS'' world2)))
     = [old_package\<lparr>pkg_last_modified := Some 10, pkg_updated_at := 1000\<rparr>]
   \<and> granules (db (snd (save_granule_basic (mk_granule_info ''G1'' ''New'') 1 ''P1'' world2)))
     = [old_granule\<lparr>gr_title := Some ''New'', gr_updated_at := 1000\<rparr>]"
  using basic_merge_on_existing_row
     [of "mk_info ''P1'' 10" world2 old_package 1 "''BILLS''" "mk_granule_info ''G1'' ''New''"
         old_granule 1 "''P1''"]
  by (simp add: world2_def old_store_def mk_info_def mk_granule_info_def old_package_def
        old_granule_def save_package_basic_def save_granule_basic_def Let_def)





subsection \<open>Precondition failures\<close>

text \<open>
  Claim C7. When the target Collection (package ingestion) or the target Package (granule
  ingestion) is not in the local store, the run raises \<open>ValueError\<close> at once, whatever
  the fuel, and the world it leaves is the world it started in: no request was sent to the
  remote API, nothing was printed, and neither the session nor the committed store changed.
\<close>

theorem precondition_failure_has_no_effect:
  "(find (\<lambda>r. coll_collection_code r = code) (collections (db w)) = None \<longrightarrow>
      ingest_collection_packages fuel c code sd ed mp fs w =
        Some (Raised (ValueError (''Collection '' @ code @ '' not found in database'')) w))
   \<and> (find (\<lambda>r. pkg_package_id r = pid) (packages (db w)) = None \<longrightarrow>
      ingest_package_granules fuel c pid mp w =
        Some (Raised (ValueError (''Package '' @ pid @ '' not found in database'')) w))"
  by (simp add: ingest_collection_packages_def ingest_package_granules_def)

theorem precondition_failure_witness:
  "ingest_collection_packages 3 catalogue ''BILLS'' ''2024'' None None True world0 =
     Some (Raised (ValueError ''Collection BILLS not found in database'') world0)
   \<and> ingest_package_granules 3 catalogue ''P1'' None world0 =
     Some (Raised (ValueError ''Package P1 not found in database'') world0)"
  using precondition_failure_has_no_effect
          [of "''BILLS''" world0 3 catalogue "''2024''" None None True "''P1''"]
  by (simp add: world0_def empty_store_def)

subsection \<open>The page limit\<close>





subsection \<open>The search cache\<close>

lemma find_append_None: "find P xs = None \<Longrightarrow> find P (xs @ ys) = find P ys"
  by (induction xs) (auto split: if_splits)

lemma find_None_filter: "find P xs = None \<Longrightarrow> filter P xs = [] \<and> filter (\<lambda>r. \<not> P r) xs = xs"
  by (induction xs) (auto split: if_splits)

lemma find_None_notin: "find P xs = None \<Longrightarrow> x \<in> set xs \<Longrightarrow> \<not> P x"
  by (induction xs) (auto split: if_splits)

lemma length_update_first: "length (update_first P f xs) = length xs"
  by (induction xs) auto

lemma distinct_key_filter:
  "distinct (map k xs) \<Longrightarrow> find (\<lambda>r. k r = v) xs = Some x \<Longrightarrow> length (filter (\<lambda>r. k r = v) xs) = 1"
proof (induction xs)
  case Nil
  then show ?case by simp
next
  case (Cons a xs)
  show ?case
  proof (cases "k a = v")
    case True
    from Cons.prems(1) have "k a \<notin> k ` set xs" by simp
    with True have "\<forall>r\<in>set xs. k r \<noteq> v" by (metis imageI)
    then have "filter (\<lambda>r. k r = v) xs = []" by (simp add: filter_empty_conv)
    with True show ?thesis by simp
  next
    case False
    with Cons show ?thesis by simp
  qed
qed

lemma cache_find_after:
  "find (\<lambda>r. sc_query_hash r = H q) (search_cache (db (cache_search_results H q res ttl w)))
     = Some (cache_entry_after H q res ttl w)"
proof (cases "find (\<lambda>r. sc_query_hash r = H q) (search_cache (db w))")
  case None
  then show ?thesis
    by (simp add: cache_search_results_def cache_entry_after_def Let_def commit_def
          find_append_None)
next
  case (Some e)
  from find_Some_holds[OF Some] have "sc_query_hash e = H q" .
  with Some show ?thesis
    by (simp add: cache_search_results_def cache_entry_after_def Let_def commit_def
          find_update_first)
qed

lemma cache_length_after:
  "length (search_cache (db (cache_search_results H q res ttl w)))
     = (if find (\<lambda>r. sc_query_hash r = H q) (search_cache (db w)) = None
        then Suc (length (search_cache (db w))) else length (search_cache (db w)))"
  by (auto simp: cache_search_results_def Let_def commit_def length_update_first
        split: option.splits)

lemma cache_others_after:
  "filter (\<lambda>r. sc_query_hash r \<noteq> H q) (search_cache (db (cache_search_results H q res ttl w)))
     = filter (\<lambda>r. sc_query_hash r \<noteq> H q) (search_cache (db w))"
proof (cases "find (\<lambda>r. sc_query_hash r = H q) (search_cache (db w))")
  case None
  then show ?thesis
    by (simp add: cache_search_results_def Let_def commit_def)
next
  case (Some e)
  from find_Some_holds[OF Some] have "sc_query_hash e = H q" .
  with Some show ?thesis
    by (simp add: cache_search_results_def Let_def commit_def filter_update_first)
qed

lemma cache_hashes_after:
  "map sc_query_hash (search_cache (db (cache_search_results H q res ttl w)))
     = (if find (\<lambda>r. sc_query_hash r = H q) (search_cache (db w)) = None
        then map sc_query_hash (search_cache (db w)) @ [H q]
        else map sc_query_hash (search_cache (db w)))"
proof (cases "find (\<lambda>r. sc_query_hash r = H q) (search_cache (db w))")
  case None
  then show ?thesis
    by (simp add: cache_search_results_def Let_def commit_def)
next
  case (Some e)
  from find_Some_holds[OF Some] have "sc_query_hash e = H q" .
  with Some show ?thesis
    by (simp add: cache_search_results_def Let_def commit_def map_update_first)
qed

lemma cache_distinct_after:
  assumes "distinct (map sc_query_hash (search_cache (db w)))"
  shows "distinct (map sc_query_hash (search_cache (db (cache_search_results H q res ttl w))))"
  using assms by (auto simp: cache_hashes_after dest: find_None_notin)

text \<open>
  Claim C6. \<open>cache_search_results\<close> leaves, under the hash of the query (the same hash
  for the same text, \<open>sha256_hex\<close> being a function), an entry with the payload, the
  payload's \<open>count\<close> (or 0), created-at equal to the write time and expiry equal to the
  write time plus \<open>ttl_hours\<close> hours. With \<open>ttl_hours = 0\<close> the entry is expired at
  every later instant; with \<open>ttl_hours = 24\<close> it is not expired one hour later. The
  table grows by one row when the hash was absent and keeps its length otherwise; entries
  under other hashes are untouched; when hashes were unique they stay unique and exactly
  one row carries the query's hash. A second call for the same text, at time \<open>t2\<close>,
  keeps the table's length and overwrites payload, count, created-at and expiry of that
  entry, its key, hash and text staying as they were. The write is committed.
\<close>

theorem cache_put_upserts_one_entry:
  "(let key = (\<lambda>r. sc_query_hash r = sha256_hex q);
        tbl = search_cache (db w);
        w' = cache_search_results sha256_hex q res ttl w;
        tbl' = search_cache (db w');
        w'' = cache_search_results sha256_hex q res2 ttl2 (w'\<lparr>now := t2\<rparr>);
        tbl'' = search_cache (db w'')
    in (\<exists>e. find key tbl' = Some e
          \<and> sc_query_hash e = sha256_hex q
          \<and> sc_results e = res
          \<and> sc_result_count e = dict_get res ''count'' (JInt 0)
          \<and> sc_created_at e = now w
          \<and> sc_expires_at e = now w + ttl * hour
          \<and> (ttl = 0 \<longrightarrow> (\<forall>t. now w < t \<longrightarrow> cache_entry_expired e t))
          \<and> (ttl = 24 \<longrightarrow> \<not> cache_entry_expired e (now w + hour))
          \<and> find key tbl'' =
                Some (e\<lparr>sc_results := res2,
                         sc_result_count := dict_get res2 ''count'' (JInt 0),
                         sc_created_at := t2,
                         sc_expires_at := t2 + ttl2 * hour\<rparr>))
     \<and> length tbl' = (if find key tbl = None then Suc (length tbl) else length tbl)
     \<and> length tbl'' = length tbl'
     \<and> filter (\<lambda>r. \<not> key r) tbl' = filter (\<lambda>r. \<not> key r) tbl
     \<and> (distinct (map sc_query_hash tbl) \<longrightarrow>
           distinct (map sc_query_hash tbl') \<and> length (filter key tbl') = 1
           \<and> length (filter key tbl'') = 1)
     \<and> durable w' = db w')"
proof -
  let ?key = "\<lambda>r. sc_query_hash r = sha256_hex q"
  let ?w' = "cache_search_results sha256_hex q res ttl w"
  let ?v = "?w'\<lparr>now := t2\<rparr>"
  let ?w'' = "cache_search_results sha256_hex q res2 ttl2 ?v"
  let ?e = "cache_entry_after sha256_hex q res ttl w"
  have f1: "find ?key (search_cache (db ?w')) = Some ?e"
    by (rule cache_find_after)
  have fields: "sc_query_hash ?e = sha256_hex q \<and> sc_results ?e = res
      \<and> sc_result_count ?e = dict_get res ''count'' (JInt 0)
      \<and> sc_created_at ?e = now w \<and> sc_expires_at ?e = now w + ttl * hour"
    by (auto simp: cache_entry_after_def dest: find_Some_holds split: option.splits)
  have ttl: "(ttl = 0 \<longrightarrow> (\<forall>t. now w < t \<longrightarrow> cache_entry_expired ?e t))
      \<and> (ttl = 24 \<longrightarrow> \<not> cache_entry_expired ?e (now w + hour))"
    using fields by (auto simp: cache_entry_expired_def hour_def)
  have fv: "find ?key (search_cache (db ?v)) = Some ?e"
    using f1 by simp
  have f2: "find ?key (search_cache (db ?w'')) =
      Some (?e\<lparr>sc_results := res2, sc_result_count := dict_get res2 ''count'' (JInt 0),
                sc_created_at := t2, sc_expires_at := t2 + ttl2 * hour\<rparr>)"
    using fv by (simp add: cache_find_after cache_entry_after_def)
  have l2: "length (search_cache (db ?w'')) = length (search_cache (db ?w'))"
    using fv by (simp add: cache_length_after)
  have d1: "distinct (map sc_query_hash (search_cache (db ?w')))"
    if "distinct (map sc_query_hash (search_cache (db w)))"
    using that by (rule cache_distinct_after)
  have d2: "distinct (map sc_query_hash (search_cache (db ?w'')))"
    if "distinct (map sc_query_hash (search_cache (db w)))"
    using cache_distinct_after[of ?v] d1[OF that] by simp
  have one1: "length (filter ?key (search_cache (db ?w'))) = 1"
    if "distinct (map sc_query_hash (search_cache (db w)))"
    using distinct_key_filter[OF d1[OF that] f1] .
  have one2: "length (filter ?key (search_cache (db ?w''))) = 1"
    if "distinct (map sc_query_hash (search_cache (db w)))"
    using distinct_key_filter[OF d2[OF that] f2] .
  have oth: "filter (\<lambda>r. \<not> ?key r) (search_cache (db ?w'))
      = filter (\<lambda>r. \<not> ?key r) (search_cache (db w))"
    using cache_others_after[of sha256_hex q res ttl w] by simp
  have dur: "durable ?w' = db ?w'"
    by (auto simp: cache_search_results_def Let_def commit_def split: option.splits)
  show ?thesis
    unfolding Let_def
    using f1 fields ttl f2 l2 one1 one2 d1 oth dur
      cache_length_after[of sha256_hex q res ttl w]
    by auto
qed

theorem cache_put_witness:
  "map (\<lambda>e. (sc_query_hash e, sc_result_count e, sc_created_at e, sc_expires_at e))
     (search_cache (db (cache_search_results toy_hash ''tax'' [(''count'', JInt 2)] 24 world0)))
     = [(''#tax'', JInt 2, 1000, 1000 + 24 * hour)]
   \<and> map (\<lambda>e. (sc_query_hash e, sc_result_count e, sc_created_at e, sc_expires_at e))
     (search_cache (db (cache_search_results toy_hash ''tax'' [] 0
        ((cache_search_results toy_hash ''tax'' [(''count'', JInt 2)] 24 world0)
           \<lparr>now := 2000\<rparr>))))
     = [(''#tax'', JInt 0, 2000, 2000)]"
  using cache_put_upserts_one_entry
          [of toy_hash "''tax''" world0 "[(''count'', JInt 2)]" 24 "[]" 0 2000]
  by (simp add: cache_search_results_def world0_def empty_store_def toy_hash_def Let_def
        commit_def dict_get_def next_id_def)

subsection \<open>The cursor walker\<close>

lemma split_from_nonempty: "split_from sep cur s \<noteq> []"
  by (induction s arbitrary: cur) auto

lemma split_from_two: "sep \<noteq> [] \<Longrightarrow> py_in sep s \<Longrightarrow> 2 \<le> length (split_from sep cur s)"
proof (induction s arbitrary: cur)
  case Nil
  then show ?case by simp
next
  case (Cons c cs)
  show ?case
  proof (cases "prefix sep (c # cs)")
    case True
    have "1 \<le> length (split_from sep [] (drop (length sep - 1) cs))"
      using split_from_nonempty[of sep "[]" "drop (length sep - 1) cs"]
      by (cases "split_from sep [] (drop (length sep - 1) cs)") auto
    with True Cons.prems show ?thesis by simp
  next
    case False
    with Cons.prems have "py_in sep cs" by simp
    from Cons.IH[OF Cons.prems(1) this] False show ?thesis by simp
  qed
qed

lemma extract_offset_mark_ok:
  assumes "py_in ''offsetMark='' np"
  shows "\<exists>m. extract_offset_mark np = Inr m"
proof -
  have "2 \<le> length (split_from ''offsetMark='' [] np)"
    using assms by (intro split_from_two) auto
  moreover have "0 < length (split_from ''&'' [] (split_from ''offsetMark='' [] np ! 1))"
    using split_from_nonempty by blast
  ultimately show ?thesis
    by (simp add: extract_offset_mark_def and_then_def py_split_def py_index_def)
qed

lemma next_cases:
  assumes "g \<noteq> Finished"
  shows "case iter_collection_packages_next c code sd ed ps g w of
        (StopIteration, g', w') \<Rightarrow>
          w' = w \<and> (\<exists>p. g = Suspended p \<and> \<not> has_continuation (cp_next_page p))
      | (Raise e, g', w') \<Rightarrow>
          (\<exists>req. w' = w\<lparr>requests := requests w @ [req]\<rparr> \<and> api_collection_packages c req = Inl e)
          \<and> (\<forall>p. g = Suspended p \<longrightarrow> has_continuation (cp_next_page p))
      | (Yield page, g', w') \<Rightarrow>
          g' = Suspended page
          \<and> (\<exists>req. w' = w\<lparr>requests := requests w @ [req]\<rparr> \<and> api_collection_packages c req = Inr page)
          \<and> (\<forall>p. g = Suspended p \<longrightarrow> has_continuation (cp_next_page p))"
proof -
  have fetch: "case fetch_page c code sd ed ps m w of
        (StopIteration, g', w') \<Rightarrow> False
      | (Raise e, g', w') \<Rightarrow>
          (\<exists>req. w' = w\<lparr>requests := requests w @ [req]\<rparr> \<and> api_collection_packages c req = Inl e)
      | (Yield page, g', w') \<Rightarrow>
          g' = Suspended page
          \<and> (\<exists>req. w' = w\<lparr>requests := requests w @ [req]\<rparr> \<and> api_collection_packages c req = Inr page)" for m
    by (auto simp: fetch_page_def get_collection_packages_def get_def Let_def
          split: sum.splits option.splits)
  show ?thesis
  proof (cases g)
    case NotStarted
    with fetch[of "''*''"] show ?thesis
      by (auto simp: iter_collection_packages_next_def split: prod.splits step.splits)
  next
    case (Suspended p)
    show ?thesis
    proof (cases "has_continuation (cp_next_page p)")
      case True
      then obtain m where m: "extract_offset_mark (the (cp_next_page p)) = Inr m"
        using extract_offset_mark_ok by (auto simp: has_continuation_def)
      with True Suspended fetch[of m] show ?thesis
        by (auto simp: iter_collection_packages_next_def has_continuation_def
              split: prod.splits step.splits)
    next
      case False
      with Suspended show ?thesis
        by (auto simp: iter_collection_packages_next_def has_continuation_def)
    qed
  next
    case Finished
    with assms show ?thesis by simp
  qed
qed

lemma walker_invariant:
  assumes "g \<noteq> Finished"
      and "iter_collection_packages fuel c code sd ed ps g w = (pages, r)"
  shows "(\<forall>i. Suc i < length pages \<longrightarrow> has_continuation (cp_next_page (pages ! i)))
    \<and> (pages \<noteq> [] \<longrightarrow> (\<forall>p. g = Suspended p \<longrightarrow> has_continuation (cp_next_page p)))
    \<and> (\<forall>w'. r = Some (None, w') \<longrightarrow>
          (case g of Suspended p \<Rightarrow> \<not> has_continuation (cp_next_page (last (p # pages)))
           | _ \<Rightarrow> pages \<noteq> [] \<and> \<not> has_continuation (cp_next_page (last pages))))
    \<and> (\<forall>e w'. r = Some (Some e, w') \<longrightarrow>
          (case g of Suspended p \<Rightarrow> has_continuation (cp_next_page (last (p # pages)))
           | _ \<Rightarrow> pages = [] \<or> has_continuation (cp_next_page (last pages))))
    \<and> ((r = None) = (length pages = fuel))
    \<and> (\<forall>x w'. r = Some (x, w') \<longrightarrow>
          (\<exists>reqs. w' = w\<lparr>requests := requests w @ reqs\<rparr>
             \<and> map (api_collection_packages c) reqs
                 = map Inr pages @ (case x of None \<Rightarrow> [] | Some e \<Rightarrow> [Inl e])))"
  using assms
proof (induction fuel arbitrary: g w pages r)
  case 0
  then show ?case by auto
next
  case (Suc fuel)
  obtain st g' w1 where step: "iter_collection_packages_next c code sd ed ps g w = (st, g', w1)"
    by (cases "iter_collection_packages_next c code sd ed ps g w") auto
  note nc = next_cases[OF Suc.prems(1), where c=c and code=code and sd=sd and ed=ed and ps=ps and w=w, unfolded step, simplified]
  show ?case
  proof (cases st)
    case StopIteration
    with step Suc.prems(2) have pr: "pages = []" "r = Some (None, w1)" by auto
    from nc StopIteration obtain p where "w1 = w" "g = Suspended p"
      "\<not> has_continuation (cp_next_page p)" by auto
    with pr show ?thesis by auto
  next
    case (Raise e)
    with step Suc.prems(2) have pr: "pages = []" "r = Some (Some e, w1)" by auto
    from nc Raise obtain req where req: "w1 = w\<lparr>requests := requests w @ [req]\<rparr>"
      "api_collection_packages c req = Inl e"
      and gc: "\<forall>p. g = Suspended p \<longrightarrow> has_continuation (cp_next_page p)" by auto
    have "\<exists>reqs. w1 = w\<lparr>requests := requests w @ reqs\<rparr>
             \<and> map (api_collection_packages c) reqs = [Inl e]"
      using req by (intro exI[of _ "[req]"]) simp
    with pr gc Suc.prems(1) show ?thesis by (cases g) auto
  next
    case (Yield pg)
    obtain pages' where rec: "iter_collection_packages fuel c code sd ed ps g' w1 = (pages', r)"
      and pages: "pages = pg # pages'"
      using step Suc.prems(2) Yield
      by (cases "iter_collection_packages fuel c code sd ed ps g' w1") auto
    from nc Yield obtain req where g': "g' = Suspended pg"
      and req: "w1 = w\<lparr>requests := requests w @ [req]\<rparr>" "api_collection_packages c req = Inr pg"
      and gc: "\<forall>p. g = Suspended p \<longrightarrow> has_continuation (cp_next_page p)" by auto
    have ne: "g' \<noteq> Finished" using g' by simp
    note IH = Suc.IH[OF ne rec, unfolded g', simplified]
    have a: "\<forall>i. Suc i < length pages \<longrightarrow> has_continuation (cp_next_page (pages ! i))"
    proof (intro allI impI)
      fix i assume i: "Suc i < length pages"
      show "has_continuation (cp_next_page (pages ! i))"
      proof (cases i)
        case 0
        with i pages have "pages' \<noteq> []" by auto
        with IH 0 pages show ?thesis by auto
      next
        case (Suc j)
        with i pages IH show ?thesis by auto
      qed
    qed
    have f: "\<forall>x w'. r = Some (x, w') \<longrightarrow>
          (\<exists>reqs. w' = w\<lparr>requests := requests w @ reqs\<rparr>
             \<and> map (api_collection_packages c) reqs
                 = map Inr pages @ (case x of None \<Rightarrow> [] | Some e \<Rightarrow> [Inl e]))"
    proof (intro allI impI)
      fix x w' assume r: "r = Some (x, w')"
      with IH obtain reqs where "w' = w1\<lparr>requests := requests w1 @ reqs\<rparr>"
        "map (api_collection_packages c) reqs
           = map Inr pages' @ (case x of None \<Rightarrow> [] | Some e \<Rightarrow> [Inl e])" by blast
      with req pages show "\<exists>reqs. w' = w\<lparr>requests := requests w @ reqs\<rparr>
             \<and> map (api_collection_packages c) reqs
                 = map Inr pages @ (case x of None \<Rightarrow> [] | Some e \<Rightarrow> [Inl e])"
        by (intro exI[of _ "req # reqs"]) simp
    qed
    have rest: "(pages \<noteq> [] \<longrightarrow> (\<forall>p. g = Suspended p \<longrightarrow> has_continuation (cp_next_page p)))
      \<and> (\<forall>w'. r = Some (None, w') \<longrightarrow>
          (case g of Suspended p \<Rightarrow> \<not> has_continuation (cp_next_page (last (p # pages)))
           | _ \<Rightarrow> pages \<noteq> [] \<and> \<not> has_continuation (cp_next_page (last pages))))
      \<and> (\<forall>e w'. r = Some (Some e, w') \<longrightarrow>
          (case g of Suspended p \<Rightarrow> has_continuation (cp_next_page (last (p # pages)))
           | _ \<Rightarrow> pages = [] \<or> has_continuation (cp_next_page (last pages))))
      \<and> ((r = None) = (length pages = Suc fuel))"
      using IH gc pages Suc.prems(1) by (cases g) auto
    from a f rest show ?thesis by blast
  qed
qed

lemma fetch_page_yields:
  assumes "fst (get_collection_packages c code sd ed m ps w) = Inr p"
  shows "\<exists>w'. fetch_page c code sd ed ps m w = (Yield p, Suspended p, w')"
  using assms by (cases "get_collection_packages c code sd ed m ps w") (auto simp: fetch_page_def)

lemma next_continues:
  assumes "has_continuation (cp_next_page p)"
      and "extract_offset_mark (the (cp_next_page p)) = Inr m"
  shows "iter_collection_packages_next c code sd ed ps (Suspended p) w
           = fetch_page c code sd ed ps m w"
  using assms by (simp add: iter_collection_packages_next_def has_continuation_def)

lemma next_stops:
  assumes "\<not> has_continuation (cp_next_page p)"
  shows "iter_collection_packages_next c code sd ed ps (Suspended p) w = (StopIteration, Finished, w)"
  using assms by (auto simp: iter_collection_packages_next_def has_continuation_def)

lemma three_pages:
  assumes r1: "\<forall>v. fst (get_collection_packages c code sd ed ''*'' ps v) = Inr p1"
      and c1: "has_continuation (cp_next_page p1)"
      and m1: "extract_offset_mark (the (cp_next_page p1)) = Inr m1"
      and r2: "\<forall>v. fst (get_collection_packages c code sd ed m1 ps v) = Inr p2"
      and c2: "has_continuation (cp_next_page p2)"
      and m2: "extract_offset_mark (the (cp_next_page p2)) = Inr m2"
      and r3: "\<forall>v. fst (get_collection_packages c code sd ed m2 ps v) = Inr p3"
      and c3: "\<not> has_continuation (cp_next_page p3)"
  shows "\<exists>w'. iter_collection_packages (Suc (Suc (Suc (Suc n)))) c code sd ed ps NotStarted w
           = ([p1, p2, p3], Some (None, w'))"
proof -
  obtain w1 where s1: "iter_collection_packages_next c code sd ed ps NotStarted w
      = (Yield p1, Suspended p1, w1)"
    using fetch_page_yields[OF r1[rule_format, of w]]
    by (auto simp: iter_collection_packages_next_def)
  obtain w2 where s2: "iter_collection_packages_next c code sd ed ps (Suspended p1) w1
      = (Yield p2, Suspended p2, w2)"
    using fetch_page_yields[OF r2[rule_format, of w1]] next_continues[OF c1 m1] by auto
  obtain w3 where s3: "iter_collection_packages_next c code sd ed ps (Suspended p2) w2
      = (Yield p3, Suspended p3, w3)"
    using fetch_page_yields[OF r3[rule_format, of w2]] next_continues[OF c2 m2] by auto
  have s4: "iter_collection_packages_next c code sd ed ps (Suspended p3) w3
      = (StopIteration, Finished, w3)"
    by (rule next_stops[OF c3])
  show ?thesis
    by (simp add: s1 s2 s3 s4)
qed

lemma catalogue_listing:
  "fst (get_collection_packages catalogue ''BILLS'' ''2024'' None ''*'' 100 v) = Inr page1"
  "fst (get_collection_packages catalogue ''BILLS'' ''2024'' None ''AAA'' 100 v) = Inr page2"
  "fst (get_collection_packages catalogue ''BILLS'' ''2024'' None ''BBB'' 100 v) = Inr page3"
  by (simp_all add: get_collection_packages_def get_def catalogue_def Let_def)

lemma catalogue_marks:
  "has_continuation (cp_next_page page1)" "has_continuation (cp_next_page page2)"
  "\<not> has_continuation (cp_next_page page3)"
  "extract_offset_mark (the (cp_next_page page1)) = Inr ''AAA''"
  "extract_offset_mark (the (cp_next_page page2)) = Inr ''BBB''"
  by code_simp+



subsection \<open>One record: detail fetch and fallback\<close>


lemma same_store_sym: "same_store w v \<Longrightarrow> same_store v w"
  by (simp add: same_store_def)

lemma same_store_trans: "same_store w v \<Longrightarrow> same_store v u \<Longrightarrow> same_store w u"
  by (simp add: same_store_def)

lemma same_store_commit: "same_store (commit w) w"
  by (simp add: same_store_def commit_def)

lemma same_store_print: "same_store (print l w) w"
  by (simp add: same_store_def print_def)

lemma same_store_requests: "same_store (w\<lparr>requests := rs\<rparr>) w"
  by (simp add: same_store_def)

lemma save_package_basic_cong:
  "same_store w v \<Longrightarrow>
   same_store (snd (save_package_basic i cid cc w)) (snd (save_package_basic i cid cc v))"
  by (auto simp: same_store_def save_package_basic_def Let_def split: option.splits)

lemma save_package_summary_cong:
  "same_store w v \<Longrightarrow>
   same_store (snd (save_package_summary s cid w)) (snd (save_package_summary s cid v))"
  by (auto simp: same_store_def save_package_summary_def Let_def split: option.splits)

lemma save_granule_basic_cong:
  "same_store w v \<Longrightarrow>
   same_store (snd (save_granule_basic i pid pident w)) (snd (save_granule_basic i pid pident v))"
  by (auto simp: same_store_def save_granule_basic_def Let_def split: option.splits)

lemma save_granule_summary_cong:
  "same_store w v \<Longrightarrow>
   same_store (snd (save_granule_summary s pid pident w))
     (snd (save_granule_summary s pid pident v))"
  by (auto simp: same_store_def save_granule_summary_def Let_def split: option.splits)

lemma save_package_basic_frame:
  "requests (snd (save_package_basic i cid cc w)) = requests w
   \<and> stdout (snd (save_package_basic i cid cc w)) = stdout w
   \<and> durable (snd (save_package_basic i cid cc w)) = durable w
   \<and> now (snd (save_package_basic i cid cc w)) = now w"
  by (auto simp: save_package_basic_def Let_def split: option.splits)

lemma save_package_summary_frame:
  "requests (snd (save_package_summary s cid w)) = requests w
   \<and> stdout (snd (save_package_summary s cid w)) = stdout w
   \<and> durable (snd (save_package_summary s cid w)) = durable w
   \<and> now (snd (save_package_summary s cid w)) = now w"
  by (auto simp: save_package_summary_def Let_def split: option.splits)

lemma save_granule_basic_frame:
  "requests (snd (save_granule_basic i pid pident w)) = requests w
   \<and> stdout (snd (save_granule_basic i pid pident w)) = stdout w
   \<and> durable (snd (save_granule_basic i pid pident w)) = durable w
   \<and> now (snd (save_granule_basic i pid pident w)) = now w"
  by (auto simp: save_granule_basic_def Let_def split: option.splits)

lemma save_granule_summary_frame:
  "requests (snd (save_granule_summary s pid pident w)) = requests w
   \<and> stdout (snd (save_granule_summary s pid pident w)) = stdout w
   \<and> durable (snd (save_granule_summary s pid pident w)) = durable w
   \<and> now (snd (save_granule_summary s pid pident w)) = now w"
  by (auto simp: save_granule_summary_def Let_def split: option.splits)

lemma ingest_granule_effect:
  "(let req = granule_summary_request c pid (gi_granule_id gi);
        w' = ingest_granule c dbid pid gi w
    in requests w' = requests w @ [req]
     \<and> durable w' = durable w \<and> now w' = now w
     \<and> (case api_granule_summary c req of
          Inr s \<Rightarrow> db w' = db (snd (save_granule_summary s dbid pid w)) \<and> stdout w' = stdout w
        | Inl e \<Rightarrow> db w' = db (snd (save_granule_basic gi dbid pid w))
                   \<and> stdout w' = stdout w @ [''Error fetching granule '' @ gi_granule_id gi
                                              @ '': '' @ str_exn e]))"
proof -
  let ?req = "granule_summary_request c pid (gi_granule_id gi)"
  let ?w1 = "w\<lparr>requests := requests w @ [?req]\<rparr>"
  have g: "get_granule_summary c pid (gi_granule_id gi) w = (api_granule_summary c ?req, ?w1)"
    by (simp add: get_granule_summary_def get_def Let_def granule_summary_request_def)
  have s1: "same_store ?w1 w" by (rule same_store_requests)
  show ?thesis
  proof (cases "api_granule_summary c ?req")
    case (Inl e)
    let ?w2 = "print (''Error fetching granule '' @ gi_granule_id gi @ '': '' @ str_exn e) ?w1"
    have "same_store ?w2 w" using same_store_print s1 same_store_trans by blast
    from save_granule_basic_cong[OF this, of gi dbid pid]
    have "db (snd (save_granule_basic gi dbid pid ?w2)) = db (snd (save_granule_basic gi dbid pid w))"
      by (simp add: same_store_def)
    with Inl g show ?thesis
      using save_granule_basic_frame[of gi dbid pid ?w2]
      by (simp add: ingest_granule_def Let_def print_def)
  next
    case (Inr s)
    from save_granule_summary_cong[OF s1, of s dbid pid]
    have "db (snd (save_granule_summary s dbid pid ?w1)) = db (snd (save_granule_summary s dbid pid w))"
      by (simp add: same_store_def)
    with Inr g show ?thesis
      using save_granule_summary_frame[of s dbid pid ?w1]
      by (simp add: ingest_granule_def Let_def)
  qed
qed

lemma ingest_package_effect:
  "(let req = summary_request c (info_package_id pkg);
        w' = ingest_package c True cid code pkg w
    in requests w' = requests w @ [req]
     \<and> durable w' = durable w \<and> now w' = now w
     \<and> (case api_package_summary c req of
          Inr s \<Rightarrow> db w' = db (snd (save_package_summary s cid w)) \<and> stdout w' = stdout w
        | Inl e \<Rightarrow> db w' = db (snd (save_package_basic pkg cid code w))
                   \<and> stdout w' = stdout w @ [''Error fetching summary for '' @ info_package_id pkg
                                              @ '': '' @ str_exn e]))"
proof -
  let ?req = "summary_request c (info_package_id pkg)"
  let ?w1 = "w\<lparr>requests := requests w @ [?req]\<rparr>"
  have g: "get_package_summary c (info_package_id pkg) w = (api_package_summary c ?req, ?w1)"
    by (simp add: get_package_summary_def get_def Let_def summary_request_def)
  have s1: "same_store ?w1 w" by (rule same_store_requests)
  show ?thesis
  proof (cases "api_package_summary c ?req")
    case (Inl e)
    let ?w2 = "print (''Error fetching summary for '' @ info_package_id pkg @ '': '' @ str_exn e) ?w1"
    have "same_store ?w2 w" using same_store_print s1 same_store_trans by blast
    from save_package_basic_cong[OF this, of pkg cid code]
    have "db (snd (save_package_basic pkg cid code ?w2)) = db (snd (save_package_basic pkg cid code w))"
      by (simp add: same_store_def)
    with Inl g show ?thesis
      using save_package_basic_frame[of pkg cid code ?w2]
      by (simp add: ingest_package_def Let_def print_def)
  next
    case (Inr s)
    from save_package_summary_cong[OF s1, of s cid]
    have "db (snd (save_package_summary s cid ?w1)) = db (snd (save_package_summary s cid w))"
      by (simp add: same_store_def)
    with Inr g show ?thesis
      using save_package_summary_frame[of s cid ?w1]
      by (simp add: ingest_package_def Let_def)
  qed
qed

lemma ingest_package_basic_effect:
  "ingest_package c False cid code pkg w = snd (save_package_basic pkg cid code w)"
  by (simp add: ingest_package_def)

lemma ingest_page_Nil: "ingest_page c fs cid code [] s = s"
  by (simp add: ingest_page_def)

lemma ingest_page_Cons:
  "ingest_page c fs cid code (pkg # pkgs) (n, w)
     = ingest_page c fs cid code pkgs (Suc n, ingest_package c fs cid code pkg w)"
  by (simp add: ingest_page_def)

lemma ingest_page_append:
  "ingest_page c fs cid code (xs @ ys) s = ingest_page c fs cid code ys (ingest_page c fs cid code xs s)"
  by (simp add: ingest_page_def)

lemma ingest_page_count: "fst (ingest_page c fs cid code pkgs (n, w)) = n + length pkgs"
  by (induction pkgs arbitrary: n w) (simp_all add: ingest_page_Nil ingest_page_Cons)

lemma ingest_granule_page_Nil: "ingest_granule_page c dbid pid [] s = s"
  by (simp add: ingest_granule_page_def)

lemma ingest_granule_page_Cons:
  "ingest_granule_page c dbid pid (gi # gis) (n, w)
     = ingest_granule_page c dbid pid gis (Suc n, ingest_granule c dbid pid gi w)"
  by (simp add: ingest_granule_page_def)

lemma ingest_granule_page_append:
  "ingest_granule_page c dbid pid (xs @ ys) s
     = ingest_granule_page c dbid pid ys (ingest_granule_page c dbid pid xs s)"
  by (simp add: ingest_granule_page_def)

lemma ingest_granule_page_count:
  "fst (ingest_granule_page c dbid pid gis (n, w)) = n + length gis"
  by (induction gis arbitrary: n w) (simp_all add: ingest_granule_page_Nil ingest_granule_page_Cons)





subsection \<open>Runs and the pages they process\<close>

lemma page_budget_pos: "page_budget mp pn = Some k \<Longrightarrow> 1 \<le> k"
  by (auto simp: page_budget_def split: option.splits if_splits)

lemma loop_end_0: "loop_end mp pn 0 r = r"
  by (auto simp: loop_end_def dest: page_budget_pos split: option.splits)

lemma take_pages_Nil: "take_pages mp pn [] = []"
  by (simp add: take_pages_def split: option.splits)

lemma limit_reached_budget: "limit_reached mp (Suc pn) = (page_budget mp pn = Some 1)"
  by (auto simp: limit_reached_def page_budget_def split: option.splits)

lemma budget_step:
  "\<not> limit_reached mp (Suc pn) \<Longrightarrow>
   page_budget mp pn = map_option Suc (page_budget mp (Suc pn))"
  by (auto simp: limit_reached_def page_budget_def split: option.splits)

lemma take_pages_limit:
  "limit_reached mp (Suc pn) \<Longrightarrow> take_pages mp pn (p # ps) = [p]"
  by (simp add: limit_reached_budget take_pages_def)

lemma loop_end_limit:
  "limit_reached mp (Suc pn) \<Longrightarrow> loop_end mp pn (Suc n) r = Some None"
  by (simp add: limit_reached_budget loop_end_def)

lemma take_pages_step:
  "\<not> limit_reached mp (Suc pn) \<Longrightarrow> take_pages mp pn (p # ps) = p # take_pages mp (Suc pn) ps"
  by (auto simp: take_pages_def budget_step split: option.splits)

lemma loop_end_step:
  "\<not> limit_reached mp (Suc pn) \<Longrightarrow> loop_end mp pn (Suc n) r = loop_end mp (Suc pn) n r"
  by (auto simp: loop_end_def budget_step split: option.splits)

lemma next_indep:
  "fst (iter_collection_packages_next c code sd ed ps g w)
     = fst (iter_collection_packages_next c code sd ed ps g v)
   \<and> fst (snd (iter_collection_packages_next c code sd ed ps g w))
     = fst (snd (iter_collection_packages_next c code sd ed ps g v))"
  by (auto simp: iter_collection_packages_next_def fetch_page_def get_collection_packages_def
        get_def Let_def split: gen.splits sum.splits option.splits)

lemma next_same_store:
  "same_store (snd (snd (iter_collection_packages_next c code sd ed ps g w))) w"
  by (auto simp: iter_collection_packages_next_def fetch_page_def get_collection_packages_def
        get_def Let_def same_store_def split: gen.splits sum.splits option.splits)

lemma ingest_package_cong:
  assumes "same_store w v"
  shows "same_store (ingest_package c fs cid code pkg w) (ingest_package c fs cid code pkg v)"
proof (cases fs)
  case True
  show ?thesis
  proof (cases "api_package_summary c (summary_request c (info_package_id pkg))")
    case (Inl e)
    with True ingest_package_effect[of c pkg cid code w] ingest_package_effect[of c pkg cid code v]
      save_package_basic_cong[OF assms, of pkg cid code] assms
      save_package_basic_frame[of pkg cid code w] save_package_basic_frame[of pkg cid code v]
    show ?thesis by (simp add: Let_def same_store_def)
  next
    case (Inr s)
    with True ingest_package_effect[of c pkg cid code w] ingest_package_effect[of c pkg cid code v]
      save_package_summary_cong[OF assms, of s cid] assms
      save_package_summary_frame[of s cid w] save_package_summary_frame[of s cid v]
    show ?thesis by (simp add: Let_def same_store_def)
  qed
next
  case False
  with save_package_basic_cong[OF assms, of pkg cid code] show ?thesis
    by (simp add: ingest_package_basic_effect)
qed

lemma ingest_page_cong:
  "same_store w v \<Longrightarrow>
   same_store (snd (ingest_page c fs cid code pkgs (n, w))) (snd (ingest_page c fs cid code pkgs (m, v)))"
proof (induction pkgs arbitrary: n m w v)
  case Nil
  then show ?case by (simp add: ingest_page_Nil)
next
  case (Cons pkg pkgs)
  from Cons.IH[OF ingest_package_cong[OF Cons.prems]] show ?case
    by (simp add: ingest_page_Cons)
qed

lemma packages_loop_walk:
  assumes "iter_collection_packages fuel c code sd ed 100 g v = (walk, r)"
  shows "case loop_end mp page_num (length walk) (map_option fst r) of
        None \<Rightarrow> packages_loop fuel c code sd ed mp fs cid g count page_num w = None
      | Some None \<Rightarrow>
          (\<exists>w'. packages_loop fuel c code sd ed mp fs cid g count page_num w
                  = Some (Returned
                      (count + length (concat (map cp_packages (take_pages mp page_num walk)))) w')
             \<and> same_store w' (snd (ingest_page c fs cid code
                   (concat (map cp_packages (take_pages mp page_num walk))) (0, w)))
             \<and> durable w' = db w')
      | Some (Some e) \<Rightarrow>
          (\<exists>w'. packages_loop fuel c code sd ed mp fs cid g count page_num w = Some (Raised e w')
             \<and> same_store w' (snd (ingest_page c fs cid code
                   (concat (map cp_packages (take_pages mp page_num walk))) (0, w))))"
  using assms
proof (induction fuel arbitrary: g v walk r count page_num w)
  case 0
  then show ?case by (simp add: loop_end_0)
next
  case (Suc fuel)
  obtain st g' w1 where sw: "iter_collection_packages_next c code sd ed 100 g w = (st, g', w1)"
    by (cases "iter_collection_packages_next c code sd ed 100 g w") auto
  obtain v1 where sv: "iter_collection_packages_next c code sd ed 100 g v = (st, g', v1)"
    using next_indep[of c code sd ed 100 g w v] sw
    by (cases "iter_collection_packages_next c code sd ed 100 g v") auto
  have w1: "same_store w1 w"
    using next_same_store[of c code sd ed 100 g w] sw by simp
  show ?case
  proof (cases st)
    case StopIteration
    with sv Suc.prems have "walk = []" "r = Some (None, v1)" by auto
    moreover have "same_store (commit w1) w"
      using same_store_commit w1 same_store_trans by blast
    ultimately show ?thesis
      using sw StopIteration
      by (simp add: loop_end_0 take_pages_Nil ingest_page_Nil commit_def)
  next
    case (Raise e)
    with sv Suc.prems have "walk = []" "r = Some (Some e, v1)" by auto
    then show ?thesis
      using sw Raise w1 by (simp add: loop_end_0 take_pages_Nil ingest_page_Nil)
  next
    case (Yield pg)
    obtain walk' where rec: "iter_collection_packages fuel c code sd ed 100 g' v1 = (walk', r)"
      and walk: "walk = pg # walk'"
      using sv Suc.prems Yield
      by (cases "iter_collection_packages fuel c code sd ed 100 g' v1") auto
    obtain n2 w2 where pg: "ingest_page c fs cid code (cp_packages pg) (count, w1) = (n2, w2)"
      by (cases "ingest_page c fs cid code (cp_packages pg) (count, w1)") auto
    have n2: "n2 = count + length (cp_packages pg)"
      using ingest_page_count[of c fs cid code "cp_packages pg" count w1] pg by simp
    have w2: "same_store (commit w2) (snd (ingest_page c fs cid code (cp_packages pg) (0, w)))"
      using ingest_page_cong[OF w1, of c fs cid code "cp_packages pg" count 0] pg
        same_store_commit[of w2] same_store_trans by fastforce
    show ?thesis
    proof (cases "limit_reached mp (Suc page_num)")
      case True
      then show ?thesis
        using sw Yield pg n2 w2 walk
        by (simp add: loop_end_limit take_pages_limit commit_def)
    next
      case False
      let ?recs = "concat (map cp_packages (take_pages mp (Suc page_num) walk'))"
      have cong: "same_store (snd (ingest_page c fs cid code ?recs (0, commit w2)))
          (snd (ingest_page c fs cid code (cp_packages pg @ ?recs) (0, w)))"
        using ingest_page_cong[OF w2, of c fs cid code ?recs 0 "length (cp_packages pg)"]
          ingest_page_count[of c fs cid code "cp_packages pg" 0 w]
        by (simp add: ingest_page_append)
           (metis add_0 prod.collapse)
      have loop: "packages_loop (Suc fuel) c code sd ed mp fs cid g count page_num w
          = packages_loop fuel c code sd ed mp fs cid g' n2 (Suc page_num) (commit w2)"
        using sw Yield pg False by simp
      note IH = Suc.IH[OF rec, where page_num="Suc page_num" and count=n2 and w="commit w2"]
      show ?thesis
      proof (cases "loop_end mp (Suc page_num) (length walk') (map_option fst r)")
        case None
        with IH loop walk False show ?thesis
          by (simp add: loop_end_step)
      next
        case (Some x)
        show ?thesis
        proof (cases x)
          case None
          with Some IH obtain w' where
            "packages_loop fuel c code sd ed mp fs cid g' n2 (Suc page_num) (commit w2)
               = Some (Returned (n2 + length ?recs) w')"
            "same_store w' (snd (ingest_page c fs cid code ?recs (0, commit w2)))"
            "durable w' = db w'" by auto
          with cong loop walk False Some None n2 show ?thesis
            by (auto simp: loop_end_step take_pages_step intro: same_store_trans)
        next
          case (Some e)
          with \<open>loop_end mp (Suc page_num) (length walk') (map_option fst r) = Some x\<close> IH
          obtain w' where
            "packages_loop fuel c code sd ed mp fs cid g' n2 (Suc page_num) (commit w2)
               = Some (Raised e w')"
            "same_store w' (snd (ingest_page c fs cid code ?recs (0, commit w2)))" by auto
          with cong loop walk False Some
            \<open>loop_end mp (Suc page_num) (length walk') (map_option fst r) = Some x\<close>
          show ?thesis
            by (auto simp: loop_end_step take_pages_step intro: same_store_trans)
        qed
      qed
    qed
  qed
qed

lemma ingest_granule_cong:
  assumes "same_store w v"
  shows "same_store (ingest_granule c dbid pid gi w) (ingest_granule c dbid pid gi v)"
proof (cases "api_granule_summary c (granule_summary_request c pid (gi_granule_id gi))")
  case (Inl e)
  with ingest_granule_effect[of c pid gi dbid w] ingest_granule_effect[of c pid gi dbid v]
    save_granule_basic_cong[OF assms, of gi dbid pid] assms
  show ?thesis by (simp add: Let_def same_store_def)
next
  case (Inr s)
  with ingest_granule_effect[of c pid gi dbid w] ingest_granule_effect[of c pid gi dbid v]
    save_granule_summary_cong[OF assms, of s dbid pid] assms
  show ?thesis by (simp add: Let_def same_store_def)
qed

lemma ingest_granule_page_cong:
  "same_store w v \<Longrightarrow>
   same_store (snd (ingest_granule_page c dbid pid gis (n, w)))
     (snd (ingest_granule_page c dbid pid gis (m, v)))"
proof (induction gis arbitrary: n m w v)
  case Nil
  then show ?case by (simp add: ingest_granule_page_Nil)
next
  case (Cons gi gis)
  from Cons.IH[OF ingest_granule_cong[OF Cons.prems]] show ?case
    by (simp add: ingest_granule_page_Cons)
qed

lemma get_package_granules_eq:
  "get_package_granules c pid mark ps w
     = (api_package_granules c (granules_request c pid mark ps),
        w\<lparr>requests := requests w @ [granules_request c pid mark ps]\<rparr>)"
  by (simp add: get_package_granules_def get_def Let_def granules_request_def)

lemma granules_loop_walk:
  assumes "granule_pages fuel c pid mark = (walk, r)"
  shows "case loop_end mp page_num (length walk) r of
        None \<Rightarrow> granules_loop fuel c pid mp dbid mark count page_num w = None
      | Some None \<Rightarrow>
          (\<exists>w'. granules_loop fuel c pid mp dbid mark count page_num w
                  = Some (Returned
                      (count + length (concat (map gl_granules (take_pages mp page_num walk)))) w')
             \<and> same_store w' (snd (ingest_granule_page c dbid pid
                   (concat (map gl_granules (take_pages mp page_num walk))) (0, w)))
             \<and> durable w' = db w')
      | Some (Some e) \<Rightarrow>
          (\<exists>w'. granules_loop fuel c pid mp dbid mark count page_num w = Some (Raised e w')
             \<and> same_store w' (snd (ingest_granule_page c dbid pid
                   (concat (map gl_granules (take_pages mp page_num walk))) (0, w))))"
  using assms
proof (induction fuel arbitrary: mark walk r count page_num w)
  case 0
  then show ?case by (simp add: loop_end_0)
next
  case (Suc fuel)
  let ?w1 = "w\<lparr>requests := requests w @ [granules_request c pid mark 100]\<rparr>"
  have w1: "same_store ?w1 w" by (rule same_store_requests)
  show ?case
  proof (cases "api_package_granules c (granules_request c pid mark 100)")
    case (Inl e)
    with Suc.prems have "walk = []" "r = Some (Some e)" by auto
    with Inl w1 show ?thesis
      by (simp add: get_package_granules_eq loop_end_0 take_pages_Nil ingest_granule_page_Nil)
  next
    case (Inr gd)
    obtain n2 w2 where pg: "ingest_granule_page c dbid pid (gl_granules gd) (count, ?w1) = (n2, w2)"
      by (cases "ingest_granule_page c dbid pid (gl_granules gd) (count, ?w1)") auto
    have n2: "n2 = count + length (gl_granules gd)"
      using ingest_granule_page_count[of c dbid pid "gl_granules gd" count ?w1] pg by simp
    have w2r: "same_store w2 (snd (ingest_granule_page c dbid pid (gl_granules gd) (0, w)))"
      using ingest_granule_page_cong[OF w1, of c dbid pid "gl_granules gd" count 0] pg by simp
    have w2: "same_store (commit w2) (snd (ingest_granule_page c dbid pid (gl_granules gd) (0, w)))"
      using w2r same_store_commit[of w2] same_store_trans by blast
    obtain walk' where walk: "walk = gd # walk'"
      using Suc.prems Inr by (auto split: if_splits sum.splits prod.splits)
    show ?thesis
    proof (cases "limit_reached mp (Suc page_num)")
      case True
      then show ?thesis
        using Inr pg n2 w2 walk
        by (simp add: get_package_granules_eq loop_end_limit take_pages_limit commit_def)
    next
      case nolimit: False
      show ?thesis
      proof (cases "has_continuation (gl_next_page gd)")
        case False
        with Suc.prems Inr have wr: "walk = [gd]" "r = Some None" by auto
        have loop: "granules_loop (Suc fuel) c pid mp dbid mark count page_num w
            = Some (Returned n2 (commit w2))"
          using Inr pg nolimit False
          by (auto simp: get_package_granules_eq has_continuation_def)
        show ?thesis
          using loop wr nolimit n2 w2
          by (simp add: loop_end_step loop_end_0 take_pages_step take_pages_Nil commit_def)
      next
        case True
        show ?thesis
        proof (cases "extract_offset_mark (the (gl_next_page gd))")
          case (Inl e)
          with Suc.prems Inr True have wr: "walk = [gd]" "r = Some (Some e)" by auto
          have loop: "granules_loop (Suc fuel) c pid mp dbid mark count page_num w
              = Some (Raised e w2)"
            using Inr pg nolimit True Inl
            by (auto simp: get_package_granules_eq has_continuation_def)
          show ?thesis
            using loop wr nolimit w2r
            by (simp add: loop_end_step loop_end_0 take_pages_step take_pages_Nil)
        next
          case (Inr m)
          have rec: "granule_pages fuel c pid m = (walk', r)"
            using Suc.prems \<open>api_package_granules c (granules_request c pid mark 100) = Inr gd\<close>
              True Inr walk
            by (cases "granule_pages fuel c pid m") auto
          have loop: "granules_loop (Suc fuel) c pid mp dbid mark count page_num w
              = granules_loop fuel c pid mp dbid m n2 (Suc page_num) (commit w2)"
            using \<open>api_package_granules c (granules_request c pid mark 100) = Inr gd\<close>
              pg nolimit True Inr
            by (auto simp: get_package_granules_eq has_continuation_def)
          let ?recs = "concat (map gl_granules (take_pages mp (Suc page_num) walk'))"
          have cong: "same_store (snd (ingest_granule_page c dbid pid ?recs (0, commit w2)))
              (snd (ingest_granule_page c dbid pid (gl_granules gd @ ?recs) (0, w)))"
          proof -
            obtain k u where ku: "ingest_granule_page c dbid pid (gl_granules gd) (0, w) = (k, u)"
              by (cases "ingest_granule_page c dbid pid (gl_granules gd) (0, w)") auto
            with w2 have "same_store (commit w2) u" by simp
            from ingest_granule_page_cong[OF this, of c dbid pid ?recs 0 k] ku
            show ?thesis by (simp add: ingest_granule_page_append)
          qed
          note IH = Suc.IH[OF rec, where page_num="Suc page_num" and count=n2 and w="commit w2"]
          show ?thesis
          proof (cases "loop_end mp (Suc page_num) (length walk') r")
            case None
            with IH loop walk nolimit show ?thesis
              by (simp add: loop_end_step)
          next
            case (Some x)
            show ?thesis
            proof (cases x)
              case None
              with Some IH obtain w' where
                "granules_loop fuel c pid mp dbid m n2 (Suc page_num) (commit w2)
                   = Some (Returned (n2 + length ?recs) w')"
                "same_store w' (snd (ingest_granule_page c dbid pid ?recs (0, commit w2)))"
                "durable w' = db w'" by auto
              with cong loop walk nolimit Some None n2 show ?thesis
                by (auto simp: loop_end_step take_pages_step intro: same_store_trans)
            next
              case (Some e)
              with \<open>loop_end mp (Suc page_num) (length walk') r = Some x\<close> IH
              obtain w' where
                "granules_loop fuel c pid mp dbid m n2 (Suc page_num) (commit w2)
                   = Some (Raised e w')"
                "same_store w' (snd (ingest_granule_page c dbid pid ?recs (0, commit w2)))" by auto
              with cong loop walk nolimit Some
                \<open>loop_end mp (Suc page_num) (length walk') r = Some x\<close>
              show ?thesis
                by (auto simp: loop_end_step take_pages_step intro: same_store_trans)
            qed
          qed
        qed
      qed
    qed
  qed
qed







lemma run_packages:
  assumes "find (\<lambda>r. coll_collection_code r = code) (collections (db w)) = Some coll"
  shows "case loop_end mp 0
             (length (fst (iter_collection_packages fuel c code sd ed 100 NotStarted w)))
             (map_option fst (snd (iter_collection_packages fuel c code sd ed 100 NotStarted w))) of
        None \<Rightarrow> ingest_collection_packages fuel c code sd ed mp fs w = None
      | Some None \<Rightarrow>
          (\<exists>w'. ingest_collection_packages fuel c code sd ed mp fs w
                  = Some (Returned
                      (length (concat (map cp_packages (take_pages mp 0
                         (fst (iter_collection_packages fuel c code sd ed 100 NotStarted w)))))) w')
             \<and> same_store w' (snd (ingest_page c fs (coll_id coll) code
                   (concat (map cp_packages (take_pages mp 0
                      (fst (iter_collection_packages fuel c code sd ed 100 NotStarted w))))) (0, w)))
             \<and> durable w' = db w')
      | Some (Some e) \<Rightarrow>
          (\<exists>w'. ingest_collection_packages fuel c code sd ed mp fs w = Some (Raised e w')
             \<and> same_store w' (snd (ingest_page c fs (coll_id coll) code
                   (concat (map cp_packages (take_pages mp 0
                      (fst (iter_collection_packages fuel c code sd ed 100 NotStarted w))))) (0, w))))"
proof -
  obtain walk r where it: "iter_collection_packages fuel c code sd ed 100 NotStarted w = (walk, r)"
    by (cases "iter_collection_packages fuel c code sd ed 100 NotStarted w") auto
  have run: "ingest_collection_packages fuel c code sd ed mp fs w
      = packages_loop fuel c code sd ed mp fs (coll_id coll) NotStarted 0 0 w"
    using assms by (simp add: ingest_collection_packages_def)
  show ?thesis
    unfolding it fst_conv snd_conv run
    using packages_loop_walk[OF it, where mp=mp and page_num=0 and fs=fs
        and cid="coll_id coll" and count=0 and w=w, unfolded add_0]
    by this
qed

lemma run_granules:
  assumes "find (\<lambda>r. pkg_package_id r = pid) (packages (db w)) = Some pk"
  shows "case loop_end mp 0 (length (fst (granule_pages fuel c pid ''*'')))
             (snd (granule_pages fuel c pid ''*'')) of
        None \<Rightarrow> ingest_package_granules fuel c pid mp w = None
      | Some None \<Rightarrow>
          (\<exists>w'. ingest_package_granules fuel c pid mp w
                  = Some (Returned
                      (length (concat (map gl_granules (take_pages mp 0
                         (fst (granule_pages fuel c pid ''*'')))))) w')
             \<and> same_store w' (snd (ingest_granule_page c (pkg_id pk) pid
                   (concat (map gl_granules (take_pages mp 0
                      (fst (granule_pages fuel c pid ''*''))))) (0, w)))
             \<and> durable w' = db w')
      | Some (Some e) \<Rightarrow>
          (\<exists>w'. ingest_package_granules fuel c pid mp w = Some (Raised e w')
             \<and> same_store w' (snd (ingest_granule_page c (pkg_id pk) pid
                   (concat (map gl_granules (take_pages mp 0
                      (fst (granule_pages fuel c pid ''*''))))) (0, w))))"
proof -
  obtain walk r where it: "granule_pages fuel c pid ''*'' = (walk, r)"
    by (cases "granule_pages fuel c pid ''*''") auto
  have run: "ingest_package_granules fuel c pid mp w
      = granules_loop fuel c pid mp (pkg_id pk) ''*'' 0 0 w"
    using assms by (simp add: ingest_package_granules_def)
  show ?thesis
    unfolding it fst_conv snd_conv run
    using granules_loop_walk[OF it, where mp=mp and page_num=0 and dbid="pkg_id pk"
        and count=0 and w=w, unfolded add_0]
    by this
qed

lemma granule_pages_None: "granule_pages fuel c pid mark = (walk, None) \<Longrightarrow> length walk = fuel"
proof (induction fuel arbitrary: mark walk)
  case 0
  then show ?case by simp
next
  case (Suc fuel)
  then show ?case
    by (auto split: sum.splits if_splits prod.splits)
qed

lemma walker_None:
  "iter_collection_packages fuel c code sd ed ps NotStarted w = (walk, None) \<Longrightarrow> length walk = fuel"
  using walker_invariant[of NotStarted fuel c code sd ed ps w walk None] by simp

lemma budget_positive: "0 < m \<Longrightarrow> page_budget (Some m) 0 = Some (nat m)"
  by (auto simp: page_budget_def)

lemma loop_end_not_None:
  assumes "0 < m" "nat m \<le> fuel" "r = None \<longrightarrow> n = fuel"
  shows "loop_end (Some m) 0 n r \<noteq> None"
  using assms by (auto simp: loop_end_def budget_positive)

lemma take_pages_positive: "0 < m \<Longrightarrow> take_pages (Some m) 0 walk = take (nat m) walk"
  by (simp add: take_pages_def budget_positive)

lemma loop_end_positive:
  "0 < m \<Longrightarrow> loop_end (Some m) 0 n r = (if nat m \<le> n then Some None else r)"
  by (simp add: loop_end_def budget_positive)

lemma take_pages_None: "take_pages None 0 walk = walk"
  by (simp add: take_pages_def page_budget_def)

lemma loop_end_None: "loop_end None 0 n r = r"
  by (simp add: loop_end_def page_budget_def)

lemma packages_run_terminates:
  assumes "find (\<lambda>r. coll_collection_code r = code) (collections (db w)) = Some coll"
      and "0 < m" "nat m \<le> fuel"
  shows "ingest_collection_packages fuel c code sd ed (Some m) fs w \<noteq> None"
proof -
  obtain walk r where it: "iter_collection_packages fuel c code sd ed 100 NotStarted w = (walk, r)"
    by (cases "iter_collection_packages fuel c code sd ed 100 NotStarted w") auto
  have "map_option fst r = None \<longrightarrow> length walk = fuel"
    using walker_None[where fuel=fuel and c=c and code=code and sd=sd and ed=ed and ps=100 and w=w and walk=walk] it by auto
  from loop_end_not_None[OF assms(2,3) this]
  have "loop_end (Some m) 0 (length walk) (map_option fst r) \<noteq> None" .
  with run_packages[OF assms(1), where mp="Some m" and fuel=fuel and c=c and sd=sd and ed=ed and fs=fs] it show ?thesis
    by (auto split: option.splits)
qed

lemma granules_run_terminates:
  assumes "find (\<lambda>r. pkg_package_id r = pid) (packages (db w)) = Some pk"
      and "0 < m" "nat m \<le> fuel"
  shows "ingest_package_granules fuel c pid (Some m) w \<noteq> None"
proof -
  obtain walk r where it: "granule_pages fuel c pid ''*'' = (walk, r)"
    by (cases "granule_pages fuel c pid ''*''") auto
  have "r = None \<longrightarrow> length walk = fuel"
    using granule_pages_None[where fuel=fuel and c=c and pid=pid and mark="''*''" and walk=walk] it by auto
  from loop_end_not_None[OF assms(2,3) this]
  have "loop_end (Some m) 0 (length walk) r \<noteq> None" .
  with run_granules[OF assms(1), where mp="Some m" and fuel=fuel and c=c] it show ?thesis
    by (auto split: option.splits)
qed

lemma catalogue_walk:
  "\<exists>w'. iter_collection_packages 4 catalogue ''BILLS'' ''2024'' None 100 NotStarted w
          = ([page1, page2, page3], Some (None, w'))"
  using three_pages[of catalogue "''BILLS''" "''2024''" None 100 page1 "''AAA''" page2 "''BBB''"
      page3 0 w] catalogue_listing catalogue_marks
  by (simp add: numeral_eq_Suc)

lemma catalogue_collection:
  "find (\<lambda>r. coll_collection_code r = ''BILLS'') (collections (db world1)) = Some bills"
  by (simp add: world1_def empty_store_def bills_def)

lemma catalogue_sizes:
  "length (cp_packages page1) = 3" "length (cp_packages page2) = 1"
  "length (cp_packages page3) = 1"
  by (simp_all add: page1_def page2_def page3_def mk_page_def)


text \<open>
  Claim C8, as stated, fails when the configured maximum is not positive. The catalogue
  offers three pages of 3, 1 and 1 packages. With \<open>max_pages = 0\<close> the run reconciles all
  five records, of three pages; with \<open>max_pages = -1\<close> it reconciles the three records of
  the first page: the limit is tested only after a page, and \<open>0\<close> counts as no limit.
\<close>

theorem page_limit_counterexample:
  "(\<exists>w'. ingest_collection_packages 4 catalogue ''BILLS'' ''2024'' None (Some 0) False world1
           = Some (Returned 5 w'))
   \<and> (\<exists>w'. ingest_collection_packages 4 catalogue ''BILLS'' ''2024'' None (Some (- 1)) False world1
           = Some (Returned 3 w'))"
proof -
  obtain v where it: "iter_collection_packages 4 catalogue ''BILLS'' ''2024'' None 100 NotStarted
      world1 = ([page1, page2, page3], Some (None, v))"
    using catalogue_walk by blast
  have b0: "page_budget (Some 0) 0 = None" and b1: "page_budget (Some (- 1)) 0 = Some 1"
    by (simp_all add: page_budget_def)
  show ?thesis
    using run_packages[OF catalogue_collection, where mp="Some 0" and fuel=4 and c=catalogue
        and sd="''2024''" and ed=None and fs=False]
      run_packages[OF catalogue_collection, where mp="Some (- 1)" and fuel=4 and c=catalogue
        and sd="''2024''" and ed=None and fs=False]
    by (auto simp: it loop_end_def take_pages_def b0 b1 catalogue_sizes)
qed

text \<open>
  Claim C8, amended to a positive maximum. Let \<open>walk\<close> be the pages the pagination offers
  within the fuel and \<open>r\<close> how it ends (for packages the walker of
  \<open>iter_collection_packages\<close>, for granules the loop's own pagination). A run whose target
  exists ends as \<open>loop_end\<close> says and has then reconciled, in order, every record of
  every page of \<open>take_pages max_pages 0 walk\<close> and no other record: its count is the
  number of those records, its session store is the store that reconciling all of them
  gives, and a run that returns has committed it. With \<open>max_pages = m > 0\<close> the pages taken
  are the first \<open>m\<close> of \<open>walk\<close> (all of it when it is shorter), the run returns at the limit
  when \<open>walk\<close> has \<open>m\<close> pages and otherwise ends as the pagination does, and fuel \<open>m\<close> is
  enough for it to end. With no \<open>max_pages\<close> the pages taken are all of \<open>walk\<close> and the
  run ends exactly as the pagination does: it returns when the pagination ends normally,
  raises what the pagination raises, and is still running when the pagination is.
\<close>

theorem page_limit_is_checked_between_pages:
  "(find (\<lambda>r. coll_collection_code r = code) (collections (db w)) = Some coll \<longrightarrow>
     (let walk = fst (iter_collection_packages fuel c code sd ed 100 NotStarted w);
          r = map_option fst (snd (iter_collection_packages fuel c code sd ed 100 NotStarted w));
          recs = concat (map cp_packages (take_pages mp 0 walk));
          run = ingest_collection_packages fuel c code sd ed mp fs w
      in (case loop_end mp 0 (length walk) r of
            None \<Rightarrow> run = None
          | Some None \<Rightarrow>
              (\<exists>w'. run = Some (Returned (length recs) w')
                 \<and> same_store w' (snd (ingest_page c fs (coll_id coll) code recs (0, w)))
                 \<and> durable w' = db w')
          | Some (Some e) \<Rightarrow>
              (\<exists>w'. run = Some (Raised e w')
                 \<and> same_store w' (snd (ingest_page c fs (coll_id coll) code recs (0, w)))))
       \<and> (\<forall>m. mp = Some m \<and> 0 < m \<longrightarrow>
             take_pages mp 0 walk = take (nat m) walk
           \<and> loop_end mp 0 (length walk) r = (if nat m \<le> length walk then Some None else r)
           \<and> (nat m \<le> fuel \<longrightarrow> run \<noteq> None))
       \<and> (mp = None \<longrightarrow> take_pages mp 0 walk = walk \<and> loop_end mp 0 (length walk) r = r)))
   \<and> (find (\<lambda>r. pkg_package_id r = pid) (packages (db w)) = Some pk \<longrightarrow>
     (let walk = fst (granule_pages fuel c pid ''*'');
          r = snd (granule_pages fuel c pid ''*'');
          recs = concat (map gl_granules (take_pages mp 0 walk));
          run = ingest_package_granules fuel c pid mp w
      in (case loop_end mp 0 (length walk) r of
            None \<Rightarrow> run = None
          | Some None \<Rightarrow>
              (\<exists>w'. run = Some (Returned (length recs) w')
                 \<and> same_store w' (snd (ingest_granule_page c (pkg_id pk) pid recs (0, w)))
                 \<and> durable w' = db w')
          | Some (Some e) \<Rightarrow>
              (\<exists>w'. run = Some (Raised e w')
                 \<and> same_store w' (snd (ingest_granule_page c (pkg_id pk) pid recs (0, w)))))
       \<and> (\<forall>m. mp = Some m \<and> 0 < m \<longrightarrow>
             take_pages mp 0 walk = take (nat m) walk
           \<and> loop_end mp 0 (length walk) r = (if nat m \<le> length walk then Some None else r)
           \<and> (nat m \<le> fuel \<longrightarrow> run \<noteq> None))
       \<and> (mp = None \<longrightarrow> take_pages mp 0 walk = walk \<and> loop_end mp 0 (length walk) r = r)))"
proof (intro conjI impI)
  assume f: "find (\<lambda>r. coll_collection_code r = code) (collections (db w)) = Some coll"
  show "let walk = fst (iter_collection_packages fuel c code sd ed 100 NotStarted w);
          r = map_option fst (snd (iter_collection_packages fuel c code sd ed 100 NotStarted w));
          recs = concat (map cp_packages (take_pages mp 0 walk));
          run = ingest_collection_packages fuel c code sd ed mp fs w
      in (case loop_end mp 0 (length walk) r of
            None \<Rightarrow> run = None
          | Some None \<Rightarrow>
              (\<exists>w'. run = Some (Returned (length recs) w')
                 \<and> same_store w' (snd (ingest_page c fs (coll_id coll) code recs (0, w)))
                 \<and> durable w' = db w')
          | Some (Some e) \<Rightarrow>
              (\<exists>w'. run = Some (Raised e w')
                 \<and> same_store w' (snd (ingest_page c fs (coll_id coll) code recs (0, w)))))
       \<and> (\<forall>m. mp = Some m \<and> 0 < m \<longrightarrow>
             take_pages mp 0 walk = take (nat m) walk
           \<and> loop_end mp 0 (length walk) r = (if nat m \<le> length walk then Some None else r)
           \<and> (nat m \<le> fuel \<longrightarrow> run \<noteq> None))
       \<and> (mp = None \<longrightarrow> take_pages mp 0 walk = walk \<and> loop_end mp 0 (length walk) r = r)"
    unfolding Let_def
    using run_packages[OF f, where mp=mp and fuel=fuel and c=c and sd=sd and ed=ed and fs=fs]
      packages_run_terminates[OF f, where fuel=fuel and c=c and sd=sd and ed=ed and fs=fs]
    by (auto simp: take_pages_positive loop_end_positive take_pages_None loop_end_None)
next
  assume f: "find (\<lambda>r. pkg_package_id r = pid) (packages (db w)) = Some pk"
  show "let walk = fst (granule_pages fuel c pid ''*'');
          r = snd (granule_pages fuel c pid ''*'');
          recs = concat (map gl_granules (take_pages mp 0 walk));
          run = ingest_package_granules fuel c pid mp w
      in (case loop_end mp 0 (length walk) r of
            None \<Rightarrow> run = None
          | Some None \<Rightarrow>
              (\<exists>w'. run = Some (Returned (length recs) w')
                 \<and> same_store w' (snd (ingest_granule_page c (pkg_id pk) pid recs (0, w)))
                 \<and> durable w' = db w')
          | Some (Some e) \<Rightarrow>
              (\<exists>w'. run = Some (Raised e w')
                 \<and> same_store w' (snd (ingest_granule_page c (pkg_id pk) pid recs (0, w)))))
       \<and> (\<forall>m. mp = Some m \<and> 0 < m \<longrightarrow>
             take_pages mp 0 walk = take (nat m) walk
           \<and> loop_end mp 0 (length walk) r = (if nat m \<le> length walk then Some None else r)
           \<and> (nat m \<le> fuel \<longrightarrow> run \<noteq> None))
       \<and> (mp = None \<longrightarrow> take_pages mp 0 walk = walk \<and> loop_end mp 0 (length walk) r = r)"
    unfolding Let_def
    using run_granules[OF f, where mp=mp and fuel=fuel and c=c]
      granules_run_terminates[OF f, where fuel=fuel and c=c]
    by (auto simp: take_pages_positive loop_end_positive take_pages_None loop_end_None)
qed

theorem page_limit_witness:
  "(\<exists>w'. ingest_collection_packages 4 catalogue ''BILLS'' ''2024'' None (Some 2) False world1
           = Some (Returned 4 w'))
   \<and> (\<exists>w'. ingest_collection_packages 4 catalogue ''BILLS'' ''2024'' None None False world1
           = Some (Returned 5 w'))"
proof -
  obtain v where it: "iter_collection_packages 4 catalogue ''BILLS'' ''2024'' None 100 NotStarted
      world1 = ([page1, page2, page3], Some (None, v))"
    using catalogue_walk by blast
  show ?thesis
    using page_limit_is_checked_between_pages[where code="''BILLS''" and w=world1 and coll=bills
        and fuel=4 and c=catalogue and sd="''2024''" and ed=None and mp="Some 2" and fs=False
        and pid="''P1''" and pk=old_package]
      page_limit_is_checked_between_pages[where code="''BILLS''" and w=world1 and coll=bills
        and fuel=4 and c=catalogue and sd="''2024''" and ed=None and mp=None and fs=False
        and pid="''P1''" and pk=old_package]
      catalogue_collection
    by (auto simp: it Let_def catalogue_sizes)
qed



subsection \<open>Ingesting a page again\<close>

lemma written_key: "pkg_package_id (written c fs cid pkg r) = pkg_package_id r"
  by (simp add: written_def set_package_data_def split: sum.splits)






lemma blank_key: "pkg_package_id (blank_updated r) = pkg_package_id r"
  by (simp add: blank_updated_def)

lemma replay_Nil: "replay_row c fs cid t k [] r = r"
  by (simp add: replay_row_def)

lemma replay_Cons:
  "replay_row c fs cid t k (pkg # pkgs) r
     = replay_row c fs cid t k pkgs
         (if target c fs pkg = k then (written c fs cid pkg r)\<lparr>pkg_updated_at := t\<rparr> else r)"
  by (simp add: replay_row_def)


lemma replay_key: "pkg_package_id (replay_row c fs cid t k pkgs r) = pkg_package_id r"
  by (induction pkgs arbitrary: r) (simp_all add: replay_Nil replay_Cons written_key)
























end
